theory Spec2Isabelle
  imports Main "HOL-Library.Multiset"
begin

section \<open>The data model of \<^verbatim>\<open>PriorityQueue.h\<close>\<close>

text \<open>
  \<^verbatim>\<open>HeapNode\<close> is a class with the two private fields \<^verbatim>\<open>int priority\<close> and
  \<^verbatim>\<open>E value\<close>. Its constructor is the record literal, \<^verbatim>\<open>getPriority()\<close> and
  \<^verbatim>\<open>getValue()\<close> are the field selectors and \<^verbatim>\<open>setPriority(p)\<close> is the record
  update \<open>n\<lparr>priority := p\<rparr>\<close>.

  Priorities are C++ \<^verbatim>\<open>int\<close>s. The program only stores, copies and compares them
  (\<^verbatim>\<open><\<close>, \<^verbatim>\<open>>\<close>, \<^verbatim>\<open>>=\<close>, \<^verbatim>\<open>==\<close>) and never computes with them, so no operation on a
  priority can overflow; they are modelled as \<open>int\<close>.

  \<^verbatim>\<open>MinHeap\<close> has the single field \<^verbatim>\<open>std::vector<HeapNode> heap\<close> and
  \<^verbatim>\<open>PriorityQueue\<close> the single field \<^verbatim>\<open>MinHeap minHeap\<close>; both are modelled by the
  list of nodes itself. Every method takes the object first and, when it writes to the
  vector, returns the new one.

  Indices and sizes are \<^verbatim>\<open>int\<close> in the source. Every index the program computes lies
  in \<open>0 .. heap.size()\<close>, with two exceptions that are written out below
  (\<^verbatim>\<open>findFirst\<close> returning \<open>-1\<close> and \<^verbatim>\<open>getParent(0)\<close>); indices are modelled as
  \<open>nat\<close>, for vectors shorter than \<open>2^31\<close>.
\<close>

record 'e HeapNode =
  priority :: int
  "value" :: 'e

type_synonym 'e MinHeap = "'e HeapNode list"

type_synonym 'e PriorityQueue = "'e MinHeap"

section \<open>\<^verbatim>\<open>MinHeap\<close>\<close>

text \<open>\<^verbatim>\<open>tmp = heap[indexOne]; heap[indexOne] = heap[indexTwo]; heap[indexTwo] = tmp\<close>\<close>

definition swap :: "'e MinHeap \<Rightarrow> nat \<Rightarrow> nat \<Rightarrow> 'e MinHeap" where
  "swap h indexOne indexTwo =
     (h[indexOne := h ! indexTwo])[indexTwo := h ! indexOne]"

text \<open>
  \<^verbatim>\<open>if (index % 2 == 1) return index / 2; return (index - 1) / 2;\<close>
  For \<open>index = 0\<close> the source computes \<open>(-1) / 2\<close>, which C++ truncates to \<open>0\<close>;
  on \<open>nat\<close>, \<open>(0 - 1) div 2 = 0 div 2 = 0\<close> as well. For every other index no
  negative number occurs.
\<close>

definition getParent :: "nat \<Rightarrow> nat" where
  "getParent index = (if index mod 2 = 1 then index div 2 else (index - 1) div 2)"

definition getSize :: "'e MinHeap \<Rightarrow> nat" where
  "getSize h = length h"

text \<open>
  \<^verbatim>\<open>getMin\<close>, \<^verbatim>\<open>getValue\<close> and \<^verbatim>\<open>getPriority\<close> index the vector unchecked: a read at
  an index \<open>\<ge> heap.size()\<close> is undefined behaviour in the source and \<open>h ! i\<close> is an
  unspecified value here. Every theorem below reads in range only.
\<close>

definition getMin :: "'e MinHeap \<Rightarrow> 'e" where
  "getMin h = value (h ! 0)"

definition getValue :: "'e MinHeap \<Rightarrow> nat \<Rightarrow> 'e" where
  "getValue h index = value (h ! index)"

definition getPriority :: "'e MinHeap \<Rightarrow> nat \<Rightarrow> int" where
  "getPriority h index = priority (h ! index)"

text \<open>
  \<^verbatim>\<open>for (int i = 0; i < getSize(); i++) if (getValue(i) == element) return i;
  return -1;\<close>
  The result is an \<open>int\<close> because of the \<open>-1\<close>.
\<close>

function findFirst_loop :: "'e MinHeap \<Rightarrow> 'e \<Rightarrow> nat \<Rightarrow> int" where
  "findFirst_loop h element i =
     (if i < getSize h
      then (if getValue h i = element then int i
            else findFirst_loop h element (i + 1))
      else - 1)"
  by pat_completeness auto
termination
  by (relation "measure (\<lambda>(h, element, i). getSize h - i)") auto

declare findFirst_loop.simps [simp del]

definition findFirst :: "'e MinHeap \<Rightarrow> 'e \<Rightarrow> int" where
  "findFirst h element = findFirst_loop h element 0"

text \<open>
  One run of the \<^verbatim>\<open>for\<close> loop of \<^verbatim>\<open>heapify\<close>, from the loop variable \<open>i\<close> down
  to \<open>1\<close>, threading the vector and the flag \<^verbatim>\<open>solved\<close>:
  \<^verbatim>\<open>
  for (int i = heap.size()/2; i > 0; i--) {
    int index = i-1;
    if (heap[index].getPriority() > heap[index*2].getPriority()) {
      swap(index, index*2); solved = false;
    }
    else if (heap[index].getPriority() > heap[index*2+1].getPriority()) {
      swap(index, index*2+1); solved = false;
    }
  }\<close>
  The children the loop looks at are \<open>index*2\<close> and \<open>index*2+1\<close>.
\<close>

function heapify_pass :: "'e MinHeap \<Rightarrow> nat \<Rightarrow> bool \<Rightarrow> 'e MinHeap \<times> bool" where
  "heapify_pass h i solved =
     (if i > 0
      then (if getPriority h (i - 1) > getPriority h ((i - 1) * 2)
            then heapify_pass (swap h (i - 1) ((i - 1) * 2)) (i - 1) False
            else if getPriority h (i - 1) > getPriority h ((i - 1) * 2 + 1)
            then heapify_pass (swap h (i - 1) ((i - 1) * 2 + 1)) (i - 1) False
            else heapify_pass h (i - 1) solved)
      else (h, solved))"
  by pat_completeness auto
termination
  by (relation "measure (\<lambda>(h, i, solved). i)") auto

declare heapify_pass.simps [simp del]

text \<open>
  The measure of the \<^verbatim>\<open>while\<close> loop of \<^verbatim>\<open>heapify\<close>: every swap of the loop moves a
  larger priority from a smaller index to a larger one, which lowers
  \<open>\<Sum>k. k * (M - priority (h ! k))\<close>, where \<open>M\<close> is the largest stored priority.
\<close>

definition heap_potential :: "'e MinHeap \<Rightarrow> int" where
  "heap_potential h =
     (\<Sum>k<length h. int k * (Max (priority ` set h) - priority (h ! k)))"

lemma length_swap: "length (swap h a b) = length h"
  by (simp add: swap_def)

lemma set_swap_heap: "a < length h \<Longrightarrow> b < length h \<Longrightarrow> set (swap h a b) = set h"
  by (simp add: swap_def set_swap)

lemma mset_swap_heap: "a < length h \<Longrightarrow> b < length h \<Longrightarrow> mset (swap h a b) = mset h"
  unfolding swap_def by (metis mset_swap)

lemma nth_swap:
  "a < length h \<Longrightarrow> b < length h \<Longrightarrow>
   swap h a b ! k = (if k = b then h ! a else if k = a then h ! b else h ! k)"
  by (simp add: swap_def nth_list_update)

lemma heap_potential_nonneg: "0 \<le> heap_potential h"
proof -
  have "0 \<le> int k * (Max (priority ` set h) - priority (h ! k))" if "k < length h" for k
  proof -
    have "priority (h ! k) \<in> priority ` set h"
      using that by simp
    then have "priority (h ! k) \<le> Max (priority ` set h)"
      by simp
    then show ?thesis by simp
  qed
  then show ?thesis
    unfolding heap_potential_def by (intro sum_nonneg) simp
qed

lemma heap_potential_swap:
  assumes ab: "a < b" and b: "b < length h"
    and gt: "priority (h ! a) > priority (h ! b)"
  shows "heap_potential (swap h a b) < heap_potential h"
proof -
  let ?n = "length h"
  let ?M = "Max (priority ` set h)"
  let ?f = "\<lambda>k. int k * (?M - priority (h ! k))"
  let ?g = "\<lambda>k. int k * (?M - priority (swap h a b ! k))"
  have a: "a < ?n" using ab b by simp
  have rest: "sum ?g ({..<?n} - {a} - {b}) = sum ?f ({..<?n} - {a} - {b})"
    by (rule sum.cong) (auto simp: nth_swap a b)
  have fin: "finite {..<?n}" "finite ({..<?n} - {a})" by simp_all
  have ina: "a \<in> {..<?n}" and inb: "b \<in> {..<?n} - {a}"
    using a b ab by auto
  have f: "sum ?f {..<?n} = ?f a + (?f b + sum ?f ({..<?n} - {a} - {b}))"
    using sum.remove [OF fin(1) ina, of ?f] sum.remove [OF fin(2) inb, of ?f] by simp
  have g: "sum ?g {..<?n} = ?g a + (?g b + sum ?g ({..<?n} - {a} - {b}))"
    using sum.remove [OF fin(1) ina, of ?g] sum.remove [OF fin(2) inb, of ?g] by simp
  have ga: "?g a = int a * (?M - priority (h ! b))"
    using ab by (simp add: nth_swap a b)
  have gb: "?g b = int b * (?M - priority (h ! a))"
    by (simp add: nth_swap a b)
  have "0 < (int b - int a) * (priority (h ! a) - priority (h ! b))"
    using ab gt by (intro mult_pos_pos) simp_all
  then have "?g a + ?g b < ?f a + ?f b"
    unfolding ga gb by (simp add: algebra_simps)
  then have "sum ?g {..<?n} < sum ?f {..<?n}"
    unfolding f g rest by simp
  then show ?thesis
    unfolding heap_potential_def by (simp add: length_swap set_swap_heap a b)
qed

text \<open>
  What one pass does: it keeps the length, never raises the measure, and if it ends with
  \<^verbatim>\<open>solved\<close> cleared after starting with it set, it has lowered the measure.
\<close>

lemma heapify_pass_measure:
  "i \<le> length h div 2 \<Longrightarrow> heapify_pass h i s = (h', s') \<Longrightarrow>
   length h' = length h \<and> heap_potential h' \<le> heap_potential h \<and>
   (s \<and> \<not> s' \<longrightarrow> heap_potential h' < heap_potential h)"
proof (induction h i s arbitrary: h' s' rule: heapify_pass.induct)
  case (1 h i solved)
  show ?case
  proof (cases "i > 0")
    case False
    with "1.prems" show ?thesis
      by (simp add: heapify_pass.simps)
  next
    case pos: True
    let ?x = "i - 1"
    have r1: "?x * 2 + 1 < length h" using pos "1.prems"(1) by linarith
    have r0: "?x * 2 < length h" using r1 by simp
    have rx: "?x < length h" using r0 by simp
    show ?thesis
    proof (cases "getPriority h ?x > getPriority h (?x * 2)")
      case left: True
      then have "?x \<noteq> ?x * 2" by auto
      then have lt: "?x < ?x * 2" by simp
      have dec: "heap_potential (swap h ?x (?x * 2)) < heap_potential h"
        using heap_potential_swap [OF lt r0] left by (simp add: getPriority_def)
      have run: "heapify_pass (swap h ?x (?x * 2)) ?x False = (h', s')"
        using "1.prems"(2) pos left by (simp add: heapify_pass.simps [of h i])
      have "?x \<le> length (swap h ?x (?x * 2)) div 2"
        using "1.prems"(1) by (simp add: length_swap)
      from "1.IH"(1) [OF pos left this run] dec show ?thesis
        by (simp add: length_swap)
    next
      case noleft: False
      show ?thesis
      proof (cases "getPriority h ?x > getPriority h (?x * 2 + 1)")
        case right: True
        have lt: "?x < ?x * 2 + 1" by simp
        have dec: "heap_potential (swap h ?x (?x * 2 + 1)) < heap_potential h"
          using heap_potential_swap [OF lt r1] right by (simp add: getPriority_def)
        have run: "heapify_pass (swap h ?x (?x * 2 + 1)) ?x False = (h', s')"
          using "1.prems"(2) pos noleft right by (simp add: heapify_pass.simps [of h i])
        have "?x \<le> length (swap h ?x (?x * 2 + 1)) div 2"
          using "1.prems"(1) by (simp add: length_swap)
        from "1.IH"(2) [OF pos noleft right this run] dec show ?thesis
          by (simp add: length_swap)
      next
        case noright: False
        have run: "heapify_pass h ?x solved = (h', s')"
          using "1.prems"(2) pos noleft noright by (simp add: heapify_pass.simps [of h i])
        have "?x \<le> length h div 2" using "1.prems"(1) by simp
        from "1.IH"(3) [OF pos noleft noright this run] show ?thesis .
      qed
    qed
  qed
qed

text \<open>
  \<^verbatim>\<open>
  bool solved = false;
  while (!solved) { solved = true; for (...) {...} }\<close>
  The loop body runs at least once; it runs again whenever a pass has swapped.
\<close>

function heapify :: "'e MinHeap \<Rightarrow> 'e MinHeap" where
  "heapify h =
     (case heapify_pass h (length h div 2) True of
        (h', solved) \<Rightarrow> if solved then h' else heapify h')"
  by pat_completeness auto
termination
proof (relation "measure (\<lambda>h. nat (heap_potential h))", goal_cases)
  case 1
  show ?case by simp
next
  case (2 h h' solved)
  then have "heapify_pass h (length h div 2) True = (h', False)" by simp
  from heapify_pass_measure [OF le_refl this]
  have "heap_potential h' < heap_potential h" by simp
  then show ?case
    using heap_potential_nonneg [of h'] by simp
qed

declare heapify.simps [simp del]

text \<open>
  \<^verbatim>\<open>
  int i = heap.size() - 1;
  int parent = getParent(i);
  while (parent != i && heap[i].getPriority() < heap[parent].getPriority()) {
    swap(i, parent); i = parent; parent = getParent(i);
  }\<close>
  At every test of the loop condition \<^verbatim>\<open>parent\<close> is \<^verbatim>\<open>getParent(i)\<close>, so the loop is
  a function of the vector and \<open>i\<close>.
\<close>

lemma getParent_less: "getParent i \<noteq> i \<Longrightarrow> getParent i < i"
  unfolding getParent_def by (cases "i = 0") (auto split: if_splits)

function upHeap_loop :: "'e MinHeap \<Rightarrow> nat \<Rightarrow> 'e MinHeap" where
  "upHeap_loop h i =
     (if getParent i \<noteq> i \<and> getPriority h i < getPriority h (getParent i)
      then upHeap_loop (swap h i (getParent i)) (getParent i)
      else h)"
  by pat_completeness auto
termination
  by (relation "measure (\<lambda>(h, i). i)") (auto simp: getParent_less)

declare upHeap_loop.simps [simp del]

definition upHeap :: "'e MinHeap \<Rightarrow> 'e MinHeap" where
  "upHeap h = upHeap_loop h (length h - 1)"

text \<open>\<^verbatim>\<open>MinHeap()\<close>: the empty vector.\<close>

definition MinHeap_new :: "'e MinHeap" where
  "MinHeap_new = []"

text \<open>
  \<^verbatim>\<open>
  int nodeIndex = findFirst(element);
  if (nodeIndex != -1) { heap[nodeIndex].setPriority(newPriority); heapify(); }\<close>
\<close>

definition changePriority :: "'e MinHeap \<Rightarrow> 'e \<Rightarrow> int \<Rightarrow> 'e MinHeap" where
  "changePriority h element newPriority =
     (if findFirst h element \<noteq> - 1
      then heapify (h[nat (findFirst h element) :=
                        (h ! nat (findFirst h element))\<lparr>priority := newPriority\<rparr>])
      else h)"

text \<open>
  \<^verbatim>\<open>swap(0, heap.size()-1); heap.pop_back(); heapify();\<close>
  The source calls it on a non-empty vector only (\<^verbatim>\<open>remove_front\<close> tests
  \<^verbatim>\<open>empty()\<close> first); on an empty one \<^verbatim>\<open>pop_back\<close> is undefined behaviour.
\<close>

definition removeFront :: "'e MinHeap \<Rightarrow> 'e MinHeap" where
  "removeFront h = heapify (butlast (swap h 0 (length h - 1)))"

text \<open>
  \<^verbatim>\<open>if (priority >= 0) { heap.push_back(HeapNode(priority, element)); upHeap(); }\<close>
\<close>

definition insert_heap :: "'e MinHeap \<Rightarrow> int \<Rightarrow> 'e \<Rightarrow> 'e MinHeap" where
  "insert_heap h prio element =
     (if prio \<ge> 0
      then upHeap (h @ [\<lparr>priority = prio, value = element\<rparr>])
      else h)"

text \<open>
  \<^verbatim>\<open>
  for (int i = 0; i < newValues.size(); i++)
    heap.push_back(HeapNode(newValues[i].first, newValues[i].second));
  heapify();\<close>
\<close>

fun push_back_all :: "'e MinHeap \<Rightarrow> (int \<times> 'e) list \<Rightarrow> 'e MinHeap" where
  "push_back_all h [] = h"
| "push_back_all h (x # newValues) =
     push_back_all (h @ [\<lparr>priority = fst x, value = snd x\<rparr>]) newValues"

definition insertAll :: "'e MinHeap \<Rightarrow> (int \<times> 'e) list \<Rightarrow> 'e MinHeap" where
  "insertAll h newValues = heapify (push_back_all h newValues)"

section \<open>\<^verbatim>\<open>PriorityQueue\<close>\<close>

text \<open>\<^verbatim>\<open>PriorityQueue() { minHeap = MinHeap(); }\<close>\<close>

definition PriorityQueue_new :: "'e PriorityQueue" where
  "PriorityQueue_new = MinHeap_new"

definition insert_queue :: "'e PriorityQueue \<Rightarrow> int \<Rightarrow> 'e \<Rightarrow> 'e PriorityQueue" where
  "insert_queue q prio element = insert_heap q prio element"

definition insert_all :: "'e PriorityQueue \<Rightarrow> (int \<times> 'e) list \<Rightarrow> 'e PriorityQueue" where
  "insert_all q new_elements = insertAll q new_elements"

definition size_queue :: "'e PriorityQueue \<Rightarrow> nat" where
  "size_queue q = getSize q"

definition empty_queue :: "'e PriorityQueue \<Rightarrow> bool" where
  "empty_queue q = (getSize q = 0)"

text \<open>
  \<^verbatim>\<open>
  if (!empty()) {
    E lowestPriorityValue = minHeap.getMin();
    minHeap.removeFront();
    return lowestPriorityValue;
  }
  return E();\<close>
  The result is the returned value and the queue after the call. \<^verbatim>\<open>E()\<close>, the
  value-initialised element of the template's type, is the parameter \<open>dflt\<close>.
\<close>

definition remove_front :: "'e \<Rightarrow> 'e PriorityQueue \<Rightarrow> 'e \<times> 'e PriorityQueue" where
  "remove_front dflt q =
     (if \<not> empty_queue q then (getMin q, removeFront q) else (dflt, q))"

text \<open>
  \<^verbatim>\<open>return minHeap.getMin();\<close> with no test for emptiness: on an empty queue the
  source reads \<^verbatim>\<open>heap[0]\<close> out of range.
\<close>

definition peek :: "'e PriorityQueue \<Rightarrow> 'e" where
  "peek q = getMin q"

text \<open>
  \<^verbatim>\<open>for (int i = 0; i < minHeap.getSize(); i++)
    elements.push_back(minHeap.getValue(i));\<close>
\<close>

function get_all_elements_loop :: "'e PriorityQueue \<Rightarrow> nat \<Rightarrow> 'e list \<Rightarrow> 'e list" where
  "get_all_elements_loop q i elements =
     (if i < getSize q
      then get_all_elements_loop q (i + 1) (elements @ [getValue q i])
      else elements)"
  by pat_completeness auto
termination
  by (relation "measure (\<lambda>(q, i, elements). getSize q - i)") auto

declare get_all_elements_loop.simps [simp del]

definition get_all_elements :: "'e PriorityQueue \<Rightarrow> 'e list" where
  "get_all_elements q = get_all_elements_loop q 0 []"

text \<open>
  \<^verbatim>\<open>for (int i = 0; i < minHeap.getSize(); i++)
    if (minHeap.getValue(i) == element) return true;
  return false;\<close>
\<close>

function contains_loop :: "'e PriorityQueue \<Rightarrow> 'e \<Rightarrow> nat \<Rightarrow> bool" where
  "contains_loop q element i =
     (if i < getSize q
      then (if getValue q i = element then True else contains_loop q element (i + 1))
      else False)"
  by pat_completeness auto
termination
  by (relation "measure (\<lambda>(q, element, i). getSize q - i)") auto

declare contains_loop.simps [simp del]

definition contains :: "'e PriorityQueue \<Rightarrow> 'e \<Rightarrow> bool" where
  "contains q element = contains_loop q element 0"

text \<open>
  \<^verbatim>\<open>
  int lowest = -1;
  for (int i = 0; i < minHeap.getSize(); i++) {
    if (minHeap.getValue(i) == element) {
      if (lowest == -1) { lowest = minHeap.getPriority(i); }
      else if (minHeap.getPriority(i) < lowest) { }
    }
  }
  return lowest;\<close>
  The inner \<^verbatim>\<open>else if\<close> has an empty body: both of its outcomes leave \<^verbatim>\<open>lowest\<close> as
  it is.
\<close>

function get_priority_loop :: "'e PriorityQueue \<Rightarrow> 'e \<Rightarrow> nat \<Rightarrow> int \<Rightarrow> int" where
  "get_priority_loop q element i lowest =
     (if i < getSize q
      then (if getValue q i = element
            then (if lowest = - 1
                  then get_priority_loop q element (i + 1) (getPriority q i)
                  else if getPriority q i < lowest
                  then get_priority_loop q element (i + 1) lowest
                  else get_priority_loop q element (i + 1) lowest)
            else get_priority_loop q element (i + 1) lowest)
      else lowest)"
  by pat_completeness auto
termination
  by (relation "measure (\<lambda>(q, element, i, lowest). getSize q - i)") auto

declare get_priority_loop.simps [simp del]

definition get_priority :: "'e PriorityQueue \<Rightarrow> 'e \<Rightarrow> int" where
  "get_priority q element = get_priority_loop q element 0 (- 1)"

text \<open>
  \<^verbatim>\<open>for (int i = 0; i < minHeap.getSize(); i++)
    priorities.push_back(minHeap.getPriority(i));\<close>
\<close>

function get_all_priorities_loop :: "'e PriorityQueue \<Rightarrow> nat \<Rightarrow> int list \<Rightarrow> int list" where
  "get_all_priorities_loop q i priorities =
     (if i < getSize q
      then get_all_priorities_loop q (i + 1) (priorities @ [getPriority q i])
      else priorities)"
  by pat_completeness auto
termination
  by (relation "measure (\<lambda>(q, i, priorities). getSize q - i)") auto

declare get_all_priorities_loop.simps [simp del]

definition get_all_priorities :: "'e PriorityQueue \<Rightarrow> int list" where
  "get_all_priorities q = get_all_priorities_loop q 0 []"

definition change_priority :: "'e PriorityQueue \<Rightarrow> 'e \<Rightarrow> int \<Rightarrow> 'e PriorityQueue" where
  "change_priority q element new_priority = changePriority q element new_priority"

section \<open>Reachable queues and the heap order\<close>

text \<open>
  A queue is reachable when a client can build it: from the constructor, by any sequence
  of the four methods that write to the vector. (The other methods only read.)
\<close>

inductive reachable :: "'e PriorityQueue \<Rightarrow> bool" where
  reachable_new: "reachable PriorityQueue_new"
| reachable_insert: "reachable q \<Longrightarrow> reachable (insert_queue q prio element)"
| reachable_insert_all: "reachable q \<Longrightarrow> reachable (insert_all q new_elements)"
| reachable_remove_front: "reachable q \<Longrightarrow> reachable (snd (remove_front dflt q))"
| reachable_change_priority:
    "reachable q \<Longrightarrow> reachable (change_priority q element new_priority)"

text \<open>
  The 0-based min-heap order of the specification: the node at \<open>i\<close> is not larger than
  its children at \<open>2i+1\<close> and \<open>2i+2\<close>, where they exist.
\<close>

definition min_heap_order :: "'e MinHeap \<Rightarrow> bool" where
  "min_heap_order h =
     list_all (\<lambda>i. (if 2 * i + 1 < length h then priority (h ! i) \<le> priority (h ! (2 * i + 1)) else True)
                  \<and> (if 2 * i + 2 < length h then priority (h ! i) \<le> priority (h ! (2 * i + 2)) else True))
       [0..<length h]"

text \<open>
  The order \<^verbatim>\<open>heapify\<close> tests for: the node at \<open>index\<close> is not larger than the nodes
  at \<open>index*2\<close> and \<open>index*2+1\<close>, for every \<open>index\<close> below half the size.
\<close>

definition heapify_order :: "'e MinHeap \<Rightarrow> bool" where
  "heapify_order h =
     list_all (\<lambda>index. priority (h ! index) \<le> priority (h ! (index * 2))
                     \<and> priority (h ! index) \<le> priority (h ! (index * 2 + 1)))
       [0..<length h div 2]"

section \<open>The loops of \<^verbatim>\<open>MinHeap\<close>\<close>

text \<open>\<^verbatim>\<open>upHeap\<close> and \<^verbatim>\<open>heapify\<close> only swap nodes: the size and the stored nodes stay.\<close>

lemma length_upHeap_loop: "length (upHeap_loop h i) = length h"
proof (induction h i rule: upHeap_loop.induct)
  case (1 h i)
  then show ?case
    by (simp add: upHeap_loop.simps [of h i] length_swap)
qed

lemma heapify_pass_preserves:
  assumes step: "\<And>g a b. P g \<Longrightarrow> length g = n \<Longrightarrow> a < b \<Longrightarrow> b < 2 * (n div 2) \<Longrightarrow> P (swap g a b)"
  shows "P h \<Longrightarrow> length h = n \<Longrightarrow> i \<le> n div 2 \<Longrightarrow> P (fst (heapify_pass h i s))"
proof (induction h i s rule: heapify_pass.induct)
  case (1 h i solved)
  show ?case
  proof (cases "i > 0")
    case False
    with "1.prems" show ?thesis
      by (subst heapify_pass.simps) simp
  next
    case pos: True
    let ?x = "i - 1"
    have r1: "?x * 2 + 1 < 2 * (n div 2)" using pos "1.prems"(3) by linarith
    have r0: "?x * 2 < 2 * (n div 2)" using r1 by simp
    have le: "?x \<le> n div 2" using "1.prems"(3) by simp
    show ?thesis
    proof (cases "getPriority h ?x > getPriority h (?x * 2)")
      case left: True
      then have "?x \<noteq> ?x * 2" by auto
      then have lt: "?x < ?x * 2" by simp
      have "P (swap h ?x (?x * 2))"
        using step [OF "1.prems"(1,2) lt r0] .
      from "1.IH"(1) [OF pos left this _ le] "1.prems"(2) show ?thesis
        using pos left by (simp add: heapify_pass.simps [of h i] length_swap)
    next
      case noleft: False
      show ?thesis
      proof (cases "getPriority h ?x > getPriority h (?x * 2 + 1)")
        case right: True
        have lt: "?x < ?x * 2 + 1" by simp
        have "P (swap h ?x (?x * 2 + 1))"
          using step [OF "1.prems"(1,2) lt r1] .
        from "1.IH"(2) [OF pos noleft right this _ le] "1.prems"(2) show ?thesis
          using pos noleft right by (simp add: heapify_pass.simps [of h i] length_swap)
      next
        case noright: False
        from "1.IH"(3) [OF pos noleft noright "1.prems"(1,2) le] show ?thesis
          using pos noleft noright by (simp add: heapify_pass.simps [of h i])
      qed
    qed
  qed
qed

lemma length_heapify_pass: "i \<le> length h div 2 \<Longrightarrow> length (fst (heapify_pass h i s)) = length h"
  using heapify_pass_measure [of i h s "fst (heapify_pass h i s)" "snd (heapify_pass h i s)"]
  by simp

lemma heapify_preserves:
  assumes step: "\<And>g a b. P g \<Longrightarrow> length g = n \<Longrightarrow> a < b \<Longrightarrow> b < 2 * (n div 2) \<Longrightarrow> P (swap g a b)"
  shows "P h \<Longrightarrow> length h = n \<Longrightarrow> P (heapify h)"
proof (induction h rule: heapify.induct)
  case (1 h)
  obtain h' solved where run: "heapify_pass h (length h div 2) True = (h', solved)"
    by (cases "heapify_pass h (length h div 2) True")
  have P': "P h'"
    using heapify_pass_preserves [of P n h "length h div 2" True, OF step "1.prems"] "1.prems"(2) run
    by simp
  have len: "length h' = n"
    using length_heapify_pass [of "length h div 2" h True] run "1.prems"(2) by simp
  show ?case
  proof (cases solved)
    case True
    with run P' show ?thesis by (simp add: heapify.simps [of h])
  next
    case False
    from "1.IH" [OF run [symmetric] False P' len] run False show ?thesis
      by (simp add: heapify.simps [of h])
  qed
qed

lemma length_heapify: "length (heapify h) = length h"
  using heapify_preserves [of "\<lambda>g. length g = length h" "length h" h]
  by (simp add: length_swap)

lemma mset_heapify: "mset (heapify h) = mset h"
proof -
  have "mset (heapify h) = mset h \<and> length (heapify h) = length h"
  proof (rule heapify_preserves [of "\<lambda>g. mset g = mset h \<and> length g = length h" "length h" h])
    fix g :: "'a MinHeap" and a b
    assume "mset g = mset h \<and> length g = length h" "a < b" "b < 2 * (length h div 2)"
    then show "mset (swap g a b) = mset h \<and> length (swap g a b) = length h"
      by (simp add: mset_swap_heap length_swap)
  qed simp_all
  then show ?thesis ..
qed

lemma set_heapify: "set (heapify h) = set h"
  using mset_heapify [of h] by (metis set_mset_mset)

lemma length_push_back_all: "length (push_back_all h newValues) = length h + length newValues"
  by (induction newValues arbitrary: h) simp_all

text \<open>
  What \<^verbatim>\<open>heapify\<close> establishes. A pass that ends with \<^verbatim>\<open>solved\<close> still set has swapped
  nothing and has found every node it visited in order with the two nodes it compares it
  to; \<^verbatim>\<open>heapify\<close> returns after such a pass.
\<close>

lemma heapify_pass_False: "snd (heapify_pass h i False) = False"
proof (induction h i "False" rule: heapify_pass.induct)
  case (1 h i)
  then show ?case
    by (subst heapify_pass.simps) simp
qed

lemma heapify_pass_solved:
  "snd (heapify_pass h i s) \<Longrightarrow>
   s \<and> fst (heapify_pass h i s) = h
   \<and> (\<forall>x<i. priority (h ! x) \<le> priority (h ! (x * 2))
           \<and> priority (h ! x) \<le> priority (h ! (x * 2 + 1)))"
proof (induction h i s rule: heapify_pass.induct)
  case (1 h i solved)
  show ?case
  proof (cases "i > 0")
    case False
    with "1.prems" show ?thesis
      by (simp add: heapify_pass.simps [of h 0])
  next
    case pos: True
    let ?x = "i - 1"
    have noleft: "\<not> getPriority h ?x > getPriority h (?x * 2)"
    proof
      assume "getPriority h ?x > getPriority h (?x * 2)"
      with pos have "heapify_pass h i solved = heapify_pass (swap h ?x (?x * 2)) ?x False"
        by (simp add: heapify_pass.simps [of h i])
      with "1.prems" show False
        by (simp add: heapify_pass_False)
    qed
    have noright: "\<not> getPriority h ?x > getPriority h (?x * 2 + 1)"
    proof
      assume "getPriority h ?x > getPriority h (?x * 2 + 1)"
      with pos noleft
      have "heapify_pass h i solved = heapify_pass (swap h ?x (?x * 2 + 1)) ?x False"
        by (simp add: heapify_pass.simps [of h i])
      with "1.prems" show False
        by (simp add: heapify_pass_False)
    qed
    have eq: "heapify_pass h i solved = heapify_pass h ?x solved"
      using pos noleft noright by (simp add: heapify_pass.simps [of h i])
    have "snd (heapify_pass h ?x solved)"
      using "1.prems" eq by simp
    from "1.IH"(3) [OF pos noleft noright this]
    have ih: "solved" "fst (heapify_pass h ?x solved) = h"
      "\<forall>x<?x. priority (h ! x) \<le> priority (h ! (x * 2))
             \<and> priority (h ! x) \<le> priority (h ! (x * 2 + 1))"
      by blast+
    have "priority (h ! x) \<le> priority (h ! (x * 2))
          \<and> priority (h ! x) \<le> priority (h ! (x * 2 + 1))" if "x < i" for x
    proof (cases "x = ?x")
      case True
      with noleft noright show ?thesis
        by (simp add: getPriority_def)
    next
      case False
      with that have "x < ?x" by simp
      with ih(3) show ?thesis by blast
    qed
    with ih(1,2) eq show ?thesis by simp
  qed
qed

lemma heapify_order_heapify: "heapify_order (heapify h)"
proof (induction h rule: heapify.induct)
  case (1 h)
  obtain h' solved where run: "heapify_pass h (length h div 2) True = (h', solved)"
    by (cases "heapify_pass h (length h div 2) True")
  show ?case
  proof (cases solved)
    case True
    with run heapify_pass_solved [of h "length h div 2" True]
    have "h' = h" and "\<forall>x<length h div 2. priority (h ! x) \<le> priority (h ! (x * 2))
           \<and> priority (h ! x) \<le> priority (h ! (x * 2 + 1))"
      by simp_all
    then have "heapify_order h"
      by (simp add: heapify_order_def list_all_iff)
    with run True \<open>h' = h\<close> show ?thesis
      by (simp add: heapify.simps [of h])
  next
    case False
    from "1.IH" [OF run [symmetric] False] run False show ?thesis
      by (simp add: heapify.simps [of h])
  qed
qed

text \<open>
  In that order the node at index 0 is not larger than any node below index
  \<open>2 * (size div 2)\<close>: every index but the last one of a vector of odd size.
\<close>

lemma heapify_order_root:
  assumes "heapify_order h"
  shows "j < 2 * (length h div 2) \<Longrightarrow> priority (h ! 0) \<le> priority (h ! j)"
proof (induction j rule: less_induct)
  case (less j)
  show ?case
  proof (cases "j = 0")
    case True
    then show ?thesis by simp
  next
    case False
    let ?x = "j div 2"
    have x: "?x < length h div 2" using less.prems by linarith
    have lt: "?x < j" using False by simp
    have "j = ?x * 2 \<or> j = ?x * 2 + 1" by linarith
    moreover from assms x
    have "priority (h ! ?x) \<le> priority (h ! (?x * 2))
        \<and> priority (h ! ?x) \<le> priority (h ! (?x * 2 + 1))"
      by (simp add: heapify_order_def list_all_iff)
    ultimately have "priority (h ! ?x) \<le> priority (h ! j)"
      by metis
    moreover have "priority (h ! 0) \<le> priority (h ! ?x)"
      using less.IH [OF lt] x by simp
    ultimately show ?thesis by simp
  qed
qed

text \<open>\<^verbatim>\<open>heapify\<close> permutes the nodes below index \<open>2 * (size div 2)\<close> among themselves.\<close>

lemma mset_take_heapify:
  "mset (take (2 * (length h div 2)) (heapify h)) = mset (take (2 * (length h div 2)) h)"
proof -
  let ?m = "2 * (length h div 2)"
  have "mset (take ?m (heapify h)) = mset (take ?m h) \<and> length (heapify h) = length h"
  proof (rule heapify_preserves
      [of "\<lambda>g. mset (take ?m g) = mset (take ?m h) \<and> length g = length h" "length h" h])
    fix g :: "'a MinHeap" and a b
    assume g: "mset (take ?m g) = mset (take ?m h) \<and> length g = length h"
      and ab: "a < b" "b < ?m"
    have m: "?m \<le> length g" using g by simp
    have "take ?m (swap g a b) = swap (take ?m g) a b"
      using ab by (simp add: swap_def take_update_swap)
    moreover have "mset (swap (take ?m g) a b) = mset (take ?m g)"
      using ab m by (intro mset_swap_heap) simp_all
    ultimately show "mset (take ?m (swap g a b)) = mset (take ?m h)
        \<and> length (swap g a b) = length h"
      using g by (simp add: length_swap)
  qed simp_all
  then show ?thesis ..
qed

text \<open>
  So after \<^verbatim>\<open>heapify\<close> the root is not larger than any node that was stored below index
  \<open>2 * (size div 2)\<close> before it.
\<close>

lemma heapify_root_le:
  assumes "k < 2 * (length h div 2)"
  shows "priority (heapify h ! 0) \<le> priority (h ! k)"
proof -
  let ?m = "2 * (length h div 2)"
  have "h ! k \<in> set (take ?m h)"
    using assms by (metis in_set_conv_nth length_take min.absorb2 nth_take
        div_mult_self1_is_m mult.commute div_times_less_eq_dividend)
  then have "h ! k \<in> set (take ?m (heapify h))"
    using mset_take_heapify [of h] by (metis set_mset_mset)
  then obtain j where j: "j < ?m" "heapify h ! j = h ! k"
    by (auto simp: in_set_conv_nth)
  from heapify_order_root [OF heapify_order_heapify, of j h] j
  show ?thesis by (simp add: length_heapify)
qed

text \<open>\<^verbatim>\<open>heapify\<close> leaves the nodes from index \<open>2 * (size div 2)\<close> on where they are.\<close>

lemma drop_heapify:
  "drop (2 * (length h div 2)) (heapify h) = drop (2 * (length h div 2)) h"
proof -
  let ?m = "2 * (length h div 2)"
  have "drop ?m (heapify h) = drop ?m h \<and> length (heapify h) = length h"
  proof (rule heapify_preserves
      [of "\<lambda>g. drop ?m g = drop ?m h \<and> length g = length h" "length h" h])
    fix g :: "'a MinHeap" and a b
    assume g: "drop ?m g = drop ?m h \<and> length g = length h"
      and ab: "a < b" "b < ?m"
    then show "drop ?m (swap g a b) = drop ?m h \<and> length (swap g a b) = length h"
      by (simp add: swap_def drop_update_cancel)
  qed simp_all
  then show ?thesis ..
qed

text \<open>
  After a priority below every other stored priority has been written into the first node
  with the value \<open>v\<close>, and \<^verbatim>\<open>heapify\<close> has run, no node with the value \<open>v\<close> stands before
  that node.
\<close>

lemma heapify_lowest_first:
  assumes k: "k < length q" "value (q ! k) = v" "\<forall>j<k. value (q ! j) \<noteq> v"
    and low: "\<forall>n \<in> set q. p < priority n"
  shows "\<exists>xs ys. heapify (q[k := \<lparr>priority = p, value = v\<rparr>])
                   = xs @ \<lparr>priority = p, value = v\<rparr> # ys
               \<and> (\<forall>n \<in> set xs. value n \<noteq> v)"
proof -
  let ?new = "\<lparr>priority = p, value = v\<rparr>"
  let ?h = "q[k := ?new]"
  let ?m = "2 * (length ?h div 2)"
  have len: "length (heapify ?h) = length q"
    by (simp add: length_heapify)
  show ?thesis
  proof (cases "k < ?m")
    case True
    from heapify_root_le [OF True] k(1)
    have le: "priority (heapify ?h ! 0) \<le> p" by simp
    have ne: "heapify ?h \<noteq> []"
      using len k(1) by (cases q) auto
    then have "heapify ?h ! 0 \<in> set (heapify ?h)"
      by (intro nth_mem) simp
    then have "heapify ?h ! 0 \<in> set ?h"
      by (simp add: set_heapify)
    then have "heapify ?h ! 0 = ?new \<or> heapify ?h ! 0 \<in> set q"
      using set_update_subset_insert [of q k ?new] by auto
    with low le have "heapify ?h ! 0 = ?new" by force
    with ne have "heapify ?h = [] @ ?new # tl (heapify ?h)"
      by (cases "heapify ?h") simp_all
    then show ?thesis by (metis empty_iff list.set(1))
  next
    case False
    then have mk: "?m \<le> k" by simp
    have "?m + 1 \<ge> length q" by simp
    with mk k(1) have last: "length q = k + 1" by simp
    have "drop ?m (heapify ?h) = drop ?m ?h"
      by (rule drop_heapify)
    moreover have "?m = k" using mk k(1) last by simp
    moreover have "drop k q = [q ! k]"
      using Cons_nth_drop_Suc [OF k(1)] last by simp
    ultimately have d: "drop k (heapify ?h) = [?new]"
      by (simp add: drop_update_swap)
    have "set (take ?m (heapify ?h)) = set (take ?m ?h)"
      using mset_take_heapify [of ?h] by (metis set_mset_mset)
    with \<open>?m = k\<close> have "set (take k (heapify ?h)) = set (take k q)"
      by simp
    moreover have "\<forall>n \<in> set (take k q). value n \<noteq> v"
      using k(1,3) by (fastforce simp: in_set_conv_nth)
    ultimately have "\<forall>n \<in> set (take k (heapify ?h)). value n \<noteq> v"
      by simp
    moreover have "heapify ?h = take k (heapify ?h) @ ?new # []"
      using d by (metis append_take_drop_id)
    ultimately show ?thesis by blast
  qed
qed

text \<open>\<^verbatim>\<open>findFirst\<close>, as a search of the list of indices.\<close>

lemma findFirst_loop_eq:
  "findFirst_loop h element i =
     (case find (\<lambda>k. value (h ! k) = element) [i..<length h] of
        None \<Rightarrow> - 1 | Some k \<Rightarrow> int k)"
proof (induction h element i rule: findFirst_loop.induct)
  case (1 h element i)
  show ?case
  proof (cases "i < length h")
    case True
    then have "[i..<length h] = i # [i + 1..<length h]"
      by (simp add: upt_conv_Cons)
    with True "1.IH" show ?thesis
      by (simp add: findFirst_loop.simps [of h element i] getSize_def getValue_def)
  next
    case False
    then show ?thesis
      by (simp add: findFirst_loop.simps [of h element i] getSize_def)
  qed
qed

lemma findFirst_none:
  "findFirst h element = - 1 \<longleftrightarrow> element \<notin> value ` set h"
proof -
  have "find (\<lambda>k. value (h ! k) = element) [0..<length h] = None
        \<longleftrightarrow> element \<notin> value ` set h"
    by (auto simp: find_None_iff image_iff dest: nth_mem) (metis in_set_conv_nth)
  then show ?thesis
    by (auto simp: findFirst_def findFirst_loop_eq split: option.splits)
qed

lemma findFirst_found:
  assumes "element \<in> value ` set h"
  shows "0 \<le> findFirst h element \<and> nat (findFirst h element) < length h
       \<and> value (h ! nat (findFirst h element)) = element
       \<and> (\<forall>j < nat (findFirst h element). value (h ! j) \<noteq> element)"
proof -
  from assms have "findFirst h element \<noteq> - 1"
    by (simp add: findFirst_none)
  then obtain k where k: "find (\<lambda>k. value (h ! k) = element) [0..<length h] = Some k"
    and r: "findFirst h element = int k"
    by (auto simp: findFirst_def findFirst_loop_eq split: option.splits)
  from k obtain i where "i < length [0..<length h]" "value (h ! ([0..<length h] ! i)) = element"
    "k = [0..<length h] ! i" "\<forall>j<i. value (h ! ([0..<length h] ! j)) \<noteq> element"
    unfolding find_Some_iff by blast
  then have "k < length h" "value (h ! k) = element" "\<forall>j<k. value (h ! j) \<noteq> element"
    by auto
  with r show ?thesis by simp
qed

section \<open>The loops of \<^verbatim>\<open>PriorityQueue\<close>\<close>

lemma get_all_elements_loop_eq:
  "get_all_elements_loop q i elements = elements @ map value (drop i q)"
proof (induction q i elements rule: get_all_elements_loop.induct)
  case (1 q i elements)
  show ?case
  proof (cases "i < length q")
    case True
    then have "drop i q = q ! i # drop (i + 1) q"
      by (simp add: Cons_nth_drop_Suc)
    with True "1.IH" show ?thesis
      by (simp add: get_all_elements_loop.simps [of q i] getSize_def getValue_def)
  next
    case False
    then show ?thesis
      by (simp add: get_all_elements_loop.simps [of q i] getSize_def)
  qed
qed

lemma get_all_priorities_loop_eq:
  "get_all_priorities_loop q i priorities = priorities @ map priority (drop i q)"
proof (induction q i priorities rule: get_all_priorities_loop.induct)
  case (1 q i priorities)
  show ?case
  proof (cases "i < length q")
    case True
    then have "drop i q = q ! i # drop (i + 1) q"
      by (simp add: Cons_nth_drop_Suc)
    with True "1.IH" show ?thesis
      by (simp add: get_all_priorities_loop.simps [of q i] getSize_def getPriority_def)
  next
    case False
    then show ?thesis
      by (simp add: get_all_priorities_loop.simps [of q i] getSize_def)
  qed
qed

lemma get_all_elements_map: "get_all_elements q = map value q"
  by (simp add: get_all_elements_def get_all_elements_loop_eq)

lemma get_all_priorities_map: "get_all_priorities q = map priority q"
  by (simp add: get_all_priorities_def get_all_priorities_loop_eq)

text \<open>The searching loops, as list functions of the part of the heap still to visit.\<close>

lemma contains_loop_eq:
  "contains_loop q element i \<longleftrightarrow> element \<in> value ` set (drop i q)"
proof (induction q element i rule: contains_loop.induct)
  case (1 q element i)
  show ?case
  proof (cases "i < length q")
    case True
    then have "drop i q = q ! i # drop (i + 1) q"
      by (simp add: Cons_nth_drop_Suc)
    with True "1.IH" show ?thesis
      by (auto simp: contains_loop.simps [of q element i] getSize_def getValue_def)
  next
    case False
    then show ?thesis
      by (simp add: contains_loop.simps [of q element i] getSize_def)
  qed
qed

lemma contains_iff: "contains q element \<longleftrightarrow> element \<in> value ` set q"
  by (simp add: contains_def contains_loop_eq)

lemma get_priority_loop_eq:
  "get_priority_loop q element i lowest =
     (if lowest \<noteq> - 1 then lowest
      else case find (\<lambda>n. value n = element \<and> priority n \<noteq> - 1) (drop i q) of
             None \<Rightarrow> - 1 | Some n \<Rightarrow> priority n)"
proof (induction q element i lowest rule: get_priority_loop.induct)
  case (1 q element i lowest)
  show ?case
  proof (cases "i < length q")
    case True
    then have "drop i q = q ! i # drop (i + 1) q"
      by (simp add: Cons_nth_drop_Suc)
    with True "1.IH" show ?thesis
      by (auto simp: get_priority_loop.simps [of q element i lowest] getSize_def getValue_def
          getPriority_def)
  next
    case False
    then show ?thesis
      by (simp add: get_priority_loop.simps [of q element i lowest] getSize_def)
  qed
qed

lemma get_priority_find:
  "get_priority q element =
     (case find (\<lambda>n. value n = element \<and> priority n \<noteq> - 1) q of
        None \<Rightarrow> - 1 | Some n \<Rightarrow> priority n)"
  by (simp add: get_priority_def get_priority_loop_eq)

lemma find_as_filter:
  "find P xs = (case filter P xs of [] \<Rightarrow> None | x # _ \<Rightarrow> Some x)"
  by (induction xs) simp_all

lemma find_first_match:
  "\<forall>x \<in> set xs. \<not> P x \<Longrightarrow> P y \<Longrightarrow> find P (xs @ y # ys) = Some y"
  by (induction xs) simp_all

section \<open>The claims\<close>

text \<open>
  C1 says that after every \<^verbatim>\<open>insert\<close>, \<^verbatim>\<open>insert_all\<close>, \<^verbatim>\<open>remove_front\<close> or
  \<^verbatim>\<open>change_priority\<close> call on a reachable queue the vector is a 0-based min-heap: no
  node is larger than its children at \<open>2i+1\<close> and \<open>2i+2\<close>. The code does not do that.
  \<^verbatim>\<open>heapify\<close> compares the node at \<open>index\<close> with the nodes at
  \<open>index*2\<close> and \<open>index*2+1\<close>, not with its children \<open>2*index+1\<close> and \<open>2*index+2\<close>, and
  stops at \<open>index < size/2\<close>: the last node of a vector of odd size is never compared.
  After \<^verbatim>\<open>insert_all({{1,"a"},{2,"b"},{0,"c"}})\<close> on a new queue the vector is still
  \<open>[1, 2, 0]\<close>, and after three \<^verbatim>\<open>insert\<close> calls with priorities 1, 2, 3 and
  \<^verbatim>\<open>change_priority("c", 0)\<close> it is \<open>[1, 2, 0]\<close> too: the root has priority 1 and its
  child at index 2 has priority 0.
\<close>

theorem heap_order_broken:
  "reachable (insert_all PriorityQueue_new [(1, ''a''), (2, ''b''), (0, ''c'')])
   \<and> insert_all PriorityQueue_new [(1, ''a''), (2, ''b''), (0, ''c'')]
       = [\<lparr>priority = 1, value = ''a''\<rparr>, \<lparr>priority = 2, value = ''b''\<rparr>,
          \<lparr>priority = 0, value = ''c''\<rparr>]
   \<and> \<not> min_heap_order (insert_all PriorityQueue_new [(1, ''a''), (2, ''b''), (0, ''c'')])
   \<and> reachable (change_priority
        (insert_queue (insert_queue (insert_queue PriorityQueue_new 1 ''a'') 2 ''b'') 3 ''c'')
        ''c'' 0)
   \<and> change_priority
        (insert_queue (insert_queue (insert_queue PriorityQueue_new 1 ''a'') 2 ''b'') 3 ''c'')
        ''c'' 0
       = [\<lparr>priority = 1, value = ''a''\<rparr>, \<lparr>priority = 2, value = ''b''\<rparr>,
          \<lparr>priority = 0, value = ''c''\<rparr>]
   \<and> \<not> min_heap_order (change_priority
        (insert_queue (insert_queue (insert_queue PriorityQueue_new 1 ''a'') 2 ''b'') 3 ''c'')
        ''c'' 0)"
proof -
  let ?bad = "[\<lparr>priority = 1, value = ''a''\<rparr>, \<lparr>priority = 2, value = ''b''\<rparr>,
               \<lparr>priority = 0, value = ''c''\<rparr>]"
  have bulk: "insert_all PriorityQueue_new [(1, ''a''), (2, ''b''), (0, ''c'')] = ?bad"
    by (simp add: insert_all_def insertAll_def PriorityQueue_new_def MinHeap_new_def
        heapify.simps heapify_pass.simps getPriority_def swap_def)
  have ins: "insert_queue (insert_queue (insert_queue PriorityQueue_new 1 ''a'') 2 ''b'') 3 ''c''
      = [\<lparr>priority = 1, value = ''a''\<rparr>, \<lparr>priority = 2, value = ''b''\<rparr>,
         \<lparr>priority = 3, value = ''c''\<rparr>]"
    by (simp add: insert_queue_def insert_heap_def PriorityQueue_new_def MinHeap_new_def
        upHeap_def upHeap_loop.simps getParent_def getPriority_def swap_def)
  have f: "findFirst [\<lparr>priority = 1, value = ''a''\<rparr>, \<lparr>priority = 2, value = ''b''\<rparr>,
                      \<lparr>priority = 3, value = ''c''\<rparr>] ''c'' = 2"
    by (simp add: findFirst_def findFirst_loop.simps getSize_def getValue_def)
  have chg: "change_priority [\<lparr>priority = 1, value = ''a''\<rparr>, \<lparr>priority = 2, value = ''b''\<rparr>,
                              \<lparr>priority = 3, value = ''c''\<rparr>] ''c'' 0 = ?bad"
    by (simp add: change_priority_def changePriority_def f heapify.simps heapify_pass.simps
        getPriority_def swap_def)
  have bad: "\<not> min_heap_order ?bad"
    by (simp add: min_heap_order_def upt_rec)
  have r1: "reachable (insert_all PriorityQueue_new [(1, ''a''), (2, ''b''), (0, ''c'')])"
    by (intro reachable_insert_all reachable_new)
  have r2: "reachable (change_priority
        (insert_queue (insert_queue (insert_queue PriorityQueue_new 1 ''a'') 2 ''b'') 3 ''c'')
        ''c'' 0)"
    by (intro reachable_change_priority reachable_insert reachable_new)
  from r1 r2 bad show ?thesis
    unfolding bulk ins chg by simp
qed

text \<open>
  C2 says that on a non-empty reachable queue \<^verbatim>\<open>peek()\<close> returns the value of a node
  whose priority is the smallest one stored. The code does not do that, by the same
  defect of \<^verbatim>\<open>heapify\<close> as in C1. After \<^verbatim>\<open>insert\<close> of
  \<open>(1,a)\<close>, \<open>(3,b)\<close>, \<open>(2,c)\<close>, \<open>(4,d)\<close> on a new queue and one \<^verbatim>\<open>remove_front()\<close>,
  which returns \<open>a\<close>, the vector is \<open>[(3,b), (4,d), (2,c)]\<close>: \<^verbatim>\<open>peek()\<close> returns \<open>b\<close>,
  stored with priority 3, while the smallest stored priority is 2, and the next
  \<^verbatim>\<open>remove_front()\<close> returns \<open>b\<close> before \<open>c\<close>.
\<close>

theorem peek_not_minimal:
  "reachable (snd (remove_front '''' (insert_queue (insert_queue (insert_queue (insert_queue
       PriorityQueue_new 1 ''a'') 3 ''b'') 2 ''c'') 4 ''d'')))
   \<and> remove_front '''' (insert_queue (insert_queue (insert_queue (insert_queue
       PriorityQueue_new 1 ''a'') 3 ''b'') 2 ''c'') 4 ''d'')
       = (''a'', [\<lparr>priority = 3, value = ''b''\<rparr>, \<lparr>priority = 4, value = ''d''\<rparr>,
                  \<lparr>priority = 2, value = ''c''\<rparr>])
   \<and> \<not> empty_queue [\<lparr>priority = 3, value = ''b''\<rparr>, \<lparr>priority = 4, value = ''d''\<rparr>,
                     \<lparr>priority = 2, value = ''c''\<rparr>]
   \<and> peek [\<lparr>priority = 3, value = ''b''\<rparr>, \<lparr>priority = 4, value = ''d''\<rparr>,
            \<lparr>priority = 2, value = ''c''\<rparr>] = ''b''
   \<and> get_all_elements [\<lparr>priority = 3, value = ''b''\<rparr>, \<lparr>priority = 4, value = ''d''\<rparr>,
            \<lparr>priority = 2, value = ''c''\<rparr>] = [''b'', ''d'', ''c'']
   \<and> get_all_priorities [\<lparr>priority = 3, value = ''b''\<rparr>, \<lparr>priority = 4, value = ''d''\<rparr>,
            \<lparr>priority = 2, value = ''c''\<rparr>] = [3, 4, 2]
   \<and> Min (set (get_all_priorities [\<lparr>priority = 3, value = ''b''\<rparr>,
            \<lparr>priority = 4, value = ''d''\<rparr>, \<lparr>priority = 2, value = ''c''\<rparr>])) = 2
   \<and> fst (remove_front '''' [\<lparr>priority = 3, value = ''b''\<rparr>, \<lparr>priority = 4, value = ''d''\<rparr>,
            \<lparr>priority = 2, value = ''c''\<rparr>]) = ''b''"
proof -
  let ?q = "insert_queue (insert_queue (insert_queue (insert_queue
       PriorityQueue_new 1 ''a'') 3 ''b'') 2 ''c'') 4 ''d''"
  let ?bad = "[\<lparr>priority = 3, value = ''b''\<rparr>, \<lparr>priority = 4, value = ''d''\<rparr>,
               \<lparr>priority = 2, value = ''c''\<rparr>]"
  have ins: "?q = [\<lparr>priority = 1, value = ''a''\<rparr>, \<lparr>priority = 3, value = ''b''\<rparr>,
                   \<lparr>priority = 2, value = ''c''\<rparr>, \<lparr>priority = 4, value = ''d''\<rparr>]"
    by (simp add: insert_queue_def insert_heap_def PriorityQueue_new_def MinHeap_new_def
        upHeap_def upHeap_loop.simps getParent_def getPriority_def swap_def)
  have rem: "remove_front '''' [\<lparr>priority = 1, value = ''a''\<rparr>, \<lparr>priority = 3, value = ''b''\<rparr>,
                   \<lparr>priority = 2, value = ''c''\<rparr>, \<lparr>priority = 4, value = ''d''\<rparr>]
             = (''a'', ?bad)"
    by (simp add: remove_front_def removeFront_def empty_queue_def getSize_def getMin_def
        heapify.simps heapify_pass.simps getPriority_def swap_def)
  have r: "reachable (snd (remove_front '''' ?q))"
    by (intro reachable_remove_front reachable_insert reachable_new)
  have next_one: "fst (remove_front '''' ?bad) = ''b''"
    by (simp add: remove_front_def empty_queue_def getSize_def getMin_def)
  have "Min (set (get_all_priorities ?bad)) = 2"
    by (simp add: get_all_priorities_map)
  with r next_one show ?thesis
    unfolding ins rem
    by (simp add: empty_queue_def getSize_def peek_def getMin_def get_all_elements_map
        get_all_priorities_map)
qed

text \<open>
  C3, as stated, fails: the node at the root wins a tie. After \<^verbatim>\<open>insert(0,"b")\<close> and
  \<^verbatim>\<open>insert(3,"a")\<close> on a new queue, \<^verbatim>\<open>change_priority("a", 0)\<close> leaves \<open>b\<close>, which also
  has priority 0, at the root, and \<^verbatim>\<open>remove_front()\<close> returns \<open>b\<close>.
\<close>

theorem change_priority_front_counterexample:
  "reachable (insert_queue (insert_queue PriorityQueue_new 0 ''b'') 3 ''a'')
   \<and> \<lparr>priority = 3, value = ''a''\<rparr>
        \<in> set (insert_queue (insert_queue PriorityQueue_new 0 ''b'') 3 ''a'')
   \<and> fst (remove_front ''''
        (change_priority (insert_queue (insert_queue PriorityQueue_new 0 ''b'') 3 ''a'') ''a'' 0))
       = ''b''
   \<and> fst (remove_front ''''
        (change_priority (insert_queue (insert_queue PriorityQueue_new 0 ''b'') 3 ''a'') ''a'' 0))
       \<noteq> ''a''"
proof -
  have q: "insert_queue (insert_queue PriorityQueue_new 0 ''b'') 3 ''a''
           = [\<lparr>priority = 0, value = ''b''\<rparr>, \<lparr>priority = 3, value = ''a''\<rparr>]"
    by (simp add: insert_queue_def insert_heap_def PriorityQueue_new_def MinHeap_new_def
        upHeap_def upHeap_loop.simps getParent_def getPriority_def swap_def)
  have r: "reachable (insert_queue (insert_queue PriorityQueue_new 0 ''b'') 3 ''a'')"
    by (intro reachable_insert reachable_new)
  have f: "findFirst [\<lparr>priority = 0, value = ''b''\<rparr>, \<lparr>priority = 3, value = ''a''\<rparr>] ''a'' = 1"
    by (simp add: findFirst_def findFirst_loop.simps getSize_def getValue_def)
  have c: "change_priority [\<lparr>priority = 0, value = ''b''\<rparr>, \<lparr>priority = 3, value = ''a''\<rparr>] ''a'' 0
           = [\<lparr>priority = 0, value = ''b''\<rparr>, \<lparr>priority = 0, value = ''a''\<rparr>]"
    by (simp add: change_priority_def changePriority_def f heapify.simps heapify_pass.simps
        getPriority_def swap_def)
  have "fst (remove_front '''' [\<lparr>priority = 0, value = ''b''\<rparr>, \<lparr>priority = 0, value = ''a''\<rparr>])
        = ''b''"
    by (simp add: remove_front_def empty_queue_def getSize_def getMin_def)
  with r show ?thesis
    unfolding q c by simp
qed

text \<open>
  C3, amended. Let a queue contain the value \<open>a\<close> with priority 3, let every node with
  another value have a priority above 0, and let the first node with the value \<open>a\<close> not be
  the last node of a vector of odd size three or more (the one index that \<^verbatim>\<open>heapify\<close>
  does not visit). Then after \<^verbatim>\<open>change_priority(a, 0)\<close> the next \<^verbatim>\<open>remove_front()\<close>
  returns \<open>a\<close>. This holds for every such queue, reachable or not.
\<close>

theorem change_priority_front:
  assumes has: "\<lparr>priority = 3, value = a\<rparr> \<in> set q"
    and others: "\<forall>n \<in> set q. value n \<noteq> a \<longrightarrow> 0 < priority n"
    and visited: "nat (findFirst q a) < 2 * (size_queue q div 2) \<or> size_queue q = 1"
  shows "fst (remove_front dflt (change_priority q a 0)) = a"
proof -
  let ?k = "nat (findFirst q a)"
  let ?h = "q[?k := (q ! ?k)\<lparr>priority := 0\<rparr>]"
  from has have mem: "a \<in> value ` set q"
    by force
  from findFirst_found [OF mem]
  have k: "?k < length q" "value (q ! ?k) = a" by simp_all
  from mem have found: "findFirst q a \<noteq> - 1"
    by (simp add: findFirst_none)
  then have cp: "change_priority q a 0 = heapify ?h"
    by (simp add: change_priority_def changePriority_def)
  have len: "length (heapify ?h) = length q"
    by (simp add: length_heapify)
  have hk: "?h ! ?k = (q ! ?k)\<lparr>priority := 0\<rparr>"
    using k(1) by simp
  have pos: "0 < length q"
    using k(1) by (cases q) simp_all
  have "heapify ?h ! 0 \<in> set (heapify ?h)"
    using len pos by (intro nth_mem) simp
  then have "heapify ?h ! 0 \<in> set ?h"
    by (simp add: set_heapify)
  then have root: "heapify ?h ! 0 = ?h ! ?k \<or> heapify ?h ! 0 \<in> set q"
    using hk set_update_subset_insert [of q ?k "(q ! ?k)\<lparr>priority := 0\<rparr>"] by auto
  have "value (heapify ?h ! 0) = a"
  proof (cases "size_queue q = 1")
    case True
    then have one: "length q = 1" by (simp add: size_queue_def getSize_def)
    then obtain x where "q = [x]"
      by (cases q) simp_all
    with k(1) have "?h = [?h ! ?k]" by simp
    then have "set ?h = {?h ! ?k}"
      by (metis list.set(1) list.simps(15))
    with \<open>heapify ?h ! 0 \<in> set ?h\<close> have "heapify ?h ! 0 = ?h ! ?k" by simp
    with hk k(2) show ?thesis by simp
  next
    case False
    with visited have "?k < 2 * (length ?h div 2)"
      by (simp add: size_queue_def getSize_def)
    from heapify_root_le [OF this] hk
    have le: "priority (heapify ?h ! 0) \<le> 0" by simp
    from root show ?thesis
    proof
      assume "heapify ?h ! 0 = ?h ! ?k"
      with hk k(2) show ?thesis by simp
    next
      assume "heapify ?h ! 0 \<in> set q"
      with others le show ?thesis by force
    qed
  qed
  moreover have "\<not> empty_queue (heapify ?h)"
    using len pos by (simp add: empty_queue_def getSize_def)
  ultimately show ?thesis
    by (simp add: cp remove_front_def getMin_def)
qed

theorem change_priority_front_witness:
  "\<lparr>priority = 3, value = ''a''\<rparr>
     \<in> set [\<lparr>priority = 1, value = ''b''\<rparr>, \<lparr>priority = 2, value = ''c''\<rparr>,
            \<lparr>priority = 3, value = ''a''\<rparr>, \<lparr>priority = 5, value = ''d''\<rparr>]
   \<and> list_all (\<lambda>n. value n = ''a'' \<or> 0 < priority n)
        [\<lparr>priority = 1, value = ''b''\<rparr>, \<lparr>priority = 2, value = ''c''\<rparr>,
         \<lparr>priority = 3, value = ''a''\<rparr>, \<lparr>priority = 5, value = ''d''\<rparr>]
   \<and> findFirst [\<lparr>priority = 1, value = ''b''\<rparr>, \<lparr>priority = 2, value = ''c''\<rparr>,
                \<lparr>priority = 3, value = ''a''\<rparr>, \<lparr>priority = 5, value = ''d''\<rparr>] ''a'' = 2
   \<and> fst (remove_front ''''
         (change_priority [\<lparr>priority = 1, value = ''b''\<rparr>, \<lparr>priority = 2, value = ''c''\<rparr>,
                           \<lparr>priority = 3, value = ''a''\<rparr>, \<lparr>priority = 5, value = ''d''\<rparr>]
            ''a'' 0)) = ''a''"
proof -
  let ?q = "[\<lparr>priority = 1, value = ''b''\<rparr>, \<lparr>priority = 2, value = ''c''\<rparr>,
             \<lparr>priority = 3, value = ''a''\<rparr>, \<lparr>priority = 5, value = ''d''\<rparr>]"
  have has: "\<lparr>priority = 3, value = ''a''\<rparr> \<in> set ?q"
    by simp
  have others: "\<forall>n \<in> set ?q. value n \<noteq> ''a'' \<longrightarrow> 0 < priority n"
    by simp
  have f: "findFirst ?q ''a'' = 2"
    by (simp add: findFirst_def findFirst_loop.simps getSize_def getValue_def)
  have visited: "nat (findFirst ?q ''a'') < 2 * (size_queue ?q div 2) \<or> size_queue ?q = 1"
    unfolding f by (simp add: size_queue_def getSize_def)
  from change_priority_front [OF has others visited, of "''''"] has f show ?thesis
    by simp
qed

text \<open>
  C4. Five values \<open>v1 .. v5\<close> are inserted with the priorities 5, 1, 3, 2, 4, in that
  order, into a new queue, by one \<^verbatim>\<open>insert_all\<close> call or by five \<^verbatim>\<open>insert\<close> calls. Five
  \<^verbatim>\<open>remove_front()\<close> calls then return \<open>v2, v4, v3, v5, v1\<close>: the values in ascending
  order of their priorities 1, 2, 3, 4, 5; the queue is empty afterwards. The values may
  be any five values, distinct or not.
\<close>

theorem drain_sorted:
  "(let q0 = insert_all PriorityQueue_new [(5, v1), (1, v2), (3, v3), (2, v4), (4, v5)];
        (r1, q1) = remove_front dflt q0;
        (r2, q2) = remove_front dflt q1;
        (r3, q3) = remove_front dflt q2;
        (r4, q4) = remove_front dflt q3;
        (r5, q5) = remove_front dflt q4
    in [r1, r2, r3, r4, r5] = [v2, v4, v3, v5, v1] \<and> empty_queue q5)
   \<and>
   (let q0 = insert_queue (insert_queue (insert_queue (insert_queue (insert_queue
               PriorityQueue_new 5 v1) 1 v2) 3 v3) 2 v4) 4 v5;
        (r1, q1) = remove_front dflt q0;
        (r2, q2) = remove_front dflt q1;
        (r3, q3) = remove_front dflt q2;
        (r4, q4) = remove_front dflt q3;
        (r5, q5) = remove_front dflt q4
    in [r1, r2, r3, r4, r5] = [v2, v4, v3, v5, v1] \<and> empty_queue q5)"
proof -
  have bulk: "insert_all PriorityQueue_new [(5, v1), (1, v2), (3, v3), (2, v4), (4, v5)]
      = [\<lparr>priority = 1, value = v2\<rparr>, \<lparr>priority = 2, value = v4\<rparr>,
         \<lparr>priority = 5, value = v1\<rparr>, \<lparr>priority = 3, value = v3\<rparr>,
         \<lparr>priority = 4, value = v5\<rparr>]"
    by (simp add: insert_all_def insertAll_def PriorityQueue_new_def MinHeap_new_def
        heapify.simps heapify_pass.simps getPriority_def swap_def)
  have single: "insert_queue (insert_queue (insert_queue (insert_queue (insert_queue
               PriorityQueue_new 5 v1) 1 v2) 3 v3) 2 v4) 4 v5
      = [\<lparr>priority = 1, value = v2\<rparr>, \<lparr>priority = 2, value = v4\<rparr>,
         \<lparr>priority = 3, value = v3\<rparr>, \<lparr>priority = 5, value = v1\<rparr>,
         \<lparr>priority = 4, value = v5\<rparr>]"
    by (simp add: insert_queue_def insert_heap_def PriorityQueue_new_def MinHeap_new_def
        upHeap_def upHeap_loop.simps getParent_def getPriority_def swap_def)
  have b1: "remove_front dflt
        [\<lparr>priority = 1, value = v2\<rparr>, \<lparr>priority = 2, value = v4\<rparr>,
         \<lparr>priority = 5, value = v1\<rparr>, \<lparr>priority = 3, value = v3\<rparr>,
         \<lparr>priority = 4, value = v5\<rparr>]
      = (v2, [\<lparr>priority = 2, value = v4\<rparr>, \<lparr>priority = 3, value = v3\<rparr>,
              \<lparr>priority = 5, value = v1\<rparr>, \<lparr>priority = 4, value = v5\<rparr>])"
    by (simp add: remove_front_def removeFront_def empty_queue_def getSize_def getMin_def
        heapify.simps heapify_pass.simps getPriority_def swap_def)
  have s1: "remove_front dflt
        [\<lparr>priority = 1, value = v2\<rparr>, \<lparr>priority = 2, value = v4\<rparr>,
         \<lparr>priority = 3, value = v3\<rparr>, \<lparr>priority = 5, value = v1\<rparr>,
         \<lparr>priority = 4, value = v5\<rparr>]
      = (v2, [\<lparr>priority = 2, value = v4\<rparr>, \<lparr>priority = 3, value = v3\<rparr>,
              \<lparr>priority = 4, value = v5\<rparr>, \<lparr>priority = 5, value = v1\<rparr>])"
    by (simp add: remove_front_def removeFront_def empty_queue_def getSize_def getMin_def
        heapify.simps heapify_pass.simps getPriority_def swap_def)
  have b2: "remove_front dflt
        [\<lparr>priority = 2, value = v4\<rparr>, \<lparr>priority = 3, value = v3\<rparr>,
         \<lparr>priority = 5, value = v1\<rparr>, \<lparr>priority = 4, value = v5\<rparr>]
      = (v4, [\<lparr>priority = 3, value = v3\<rparr>, \<lparr>priority = 4, value = v5\<rparr>,
              \<lparr>priority = 5, value = v1\<rparr>])"
    by (simp add: remove_front_def removeFront_def empty_queue_def getSize_def getMin_def
        heapify.simps heapify_pass.simps getPriority_def swap_def)
  have s2: "remove_front dflt
        [\<lparr>priority = 2, value = v4\<rparr>, \<lparr>priority = 3, value = v3\<rparr>,
         \<lparr>priority = 4, value = v5\<rparr>, \<lparr>priority = 5, value = v1\<rparr>]
      = (v4, [\<lparr>priority = 3, value = v3\<rparr>, \<lparr>priority = 5, value = v1\<rparr>,
              \<lparr>priority = 4, value = v5\<rparr>])"
    by (simp add: remove_front_def removeFront_def empty_queue_def getSize_def getMin_def
        heapify.simps heapify_pass.simps getPriority_def swap_def)
  have b3: "remove_front dflt
        [\<lparr>priority = 3, value = v3\<rparr>, \<lparr>priority = 4, value = v5\<rparr>,
         \<lparr>priority = 5, value = v1\<rparr>]
      = (v3, [\<lparr>priority = 4, value = v5\<rparr>, \<lparr>priority = 5, value = v1\<rparr>])"
    by (simp add: remove_front_def removeFront_def empty_queue_def getSize_def getMin_def
        heapify.simps heapify_pass.simps getPriority_def swap_def)
  have s3: "remove_front dflt
        [\<lparr>priority = 3, value = v3\<rparr>, \<lparr>priority = 5, value = v1\<rparr>,
         \<lparr>priority = 4, value = v5\<rparr>]
      = (v3, [\<lparr>priority = 4, value = v5\<rparr>, \<lparr>priority = 5, value = v1\<rparr>])"
    by (simp add: remove_front_def removeFront_def empty_queue_def getSize_def getMin_def
        heapify.simps heapify_pass.simps getPriority_def swap_def)
  have r4: "remove_front dflt [\<lparr>priority = 4, value = v5\<rparr>, \<lparr>priority = 5, value = v1\<rparr>]
      = (v5, [\<lparr>priority = 5, value = v1\<rparr>])"
    by (simp add: remove_front_def removeFront_def empty_queue_def getSize_def getMin_def
        heapify.simps heapify_pass.simps getPriority_def swap_def)
  have r5: "remove_front dflt [\<lparr>priority = 5, value = v1\<rparr>] = (v1, [])"
    by (simp add: remove_front_def removeFront_def empty_queue_def getSize_def getMin_def
        heapify.simps heapify_pass.simps getPriority_def swap_def)
  show ?thesis
    by (simp add: Let_def bulk single b1 s1 b2 s2 b3 s3 r4 r5 empty_queue_def getSize_def)
qed

theorem drain_sorted_witness:
  "(let q0 = insert_all PriorityQueue_new
               [(5, ''e''), (1, ''a''), (3, ''c''), (2, ''b''), (4, ''d'')];
        (r1, q1) = remove_front '''' q0;
        (r2, q2) = remove_front '''' q1;
        (r3, q3) = remove_front '''' q2;
        (r4, q4) = remove_front '''' q3;
        (r5, q5) = remove_front '''' q4
    in [r1, r2, r3, r4, r5] = [''a'', ''b'', ''c'', ''d'', ''e''] \<and> empty_queue q5)
   \<and>
   (let q0 = insert_queue (insert_queue (insert_queue (insert_queue (insert_queue
               PriorityQueue_new 5 ''e'') 1 ''a'') 3 ''c'') 2 ''b'') 4 ''d'';
        (r1, q1) = remove_front '''' q0;
        (r2, q2) = remove_front '''' q1;
        (r3, q3) = remove_front '''' q2;
        (r4, q4) = remove_front '''' q3;
        (r5, q5) = remove_front '''' q4
    in [r1, r2, r3, r4, r5] = [''a'', ''b'', ''c'', ''d'', ''e''] \<and> empty_queue q5)"
  by (rule drain_sorted [of "''e''" "''a''" "''c''" "''b''" "''d''" "''''"])

text \<open>
  C5. \<^verbatim>\<open>insert(p, v)\<close> with \<open>p < 0\<close> does nothing: the queue after the call is the queue
  before it, node for node and in the same order, so \<^verbatim>\<open>size()\<close>,
  \<^verbatim>\<open>get_all_elements()\<close> and \<^verbatim>\<open>get_all_priorities()\<close> answer as before. The method has
  no error result: the model returns the queue and nothing else. This holds for every
  queue, reachable or not.
\<close>

theorem insert_negative_noop:
  assumes "prio < 0"
  shows "insert_queue q prio element = q
       \<and> size_queue (insert_queue q prio element) = size_queue q
       \<and> get_all_elements (insert_queue q prio element) = get_all_elements q
       \<and> get_all_priorities (insert_queue q prio element) = get_all_priorities q"
  using assms by (simp add: insert_queue_def insert_heap_def)

theorem insert_negative_noop_witness:
  "(- 4 :: int) < 0
   \<and> insert_queue [\<lparr>priority = 1, value = ''b''\<rparr>, \<lparr>priority = 3, value = ''a''\<rparr>] (- 4) ''z''
       = [\<lparr>priority = 1, value = ''b''\<rparr>, \<lparr>priority = 3, value = ''a''\<rparr>]
   \<and> size_queue (insert_queue [\<lparr>priority = 1, value = ''b''\<rparr>, \<lparr>priority = 3, value = ''a''\<rparr>] (- 4) ''z'') = 2
   \<and> get_all_elements (insert_queue [\<lparr>priority = 1, value = ''b''\<rparr>, \<lparr>priority = 3, value = ''a''\<rparr>] (- 4) ''z'')
       = [''b'', ''a'']
   \<and> get_all_priorities (insert_queue [\<lparr>priority = 1, value = ''b''\<rparr>, \<lparr>priority = 3, value = ''a''\<rparr>] (- 4) ''z'')
       = [1, 3]"
  using insert_negative_noop
    [of "- 4" "[\<lparr>priority = 1, value = ''b''\<rparr>, \<lparr>priority = 3, value = ''a''\<rparr>]" "''z''"]
  by (simp add: size_queue_def getSize_def get_all_elements_map get_all_priorities_map)

text \<open>
  C6. \<^verbatim>\<open>size()\<close> grows by one on \<^verbatim>\<open>insert\<close> with a priority \<open>\<ge> 0\<close>, grows by \<open>k\<close> on
  \<^verbatim>\<open>insert_all\<close> of \<open>k\<close> pairs whatever the signs of their priorities, shrinks by one on
  \<^verbatim>\<open>remove_front\<close> of a non-empty queue and stays on \<^verbatim>\<open>change_priority\<close>. The methods
  \<^verbatim>\<open>peek\<close>, \<^verbatim>\<open>contains\<close> and \<^verbatim>\<open>get_priority\<close> have no assignment to the vector in the
  source; in the model they are functions from the queue to their result, and the queue
  after them is the queue before them. This holds for every queue, reachable or not.
\<close>

theorem size_changes:
  "(0 \<le> prio \<longrightarrow> size_queue (insert_queue q prio element) = size_queue q + 1)
   \<and> size_queue (insert_all q new_elements) = size_queue q + length new_elements
   \<and> (\<not> empty_queue q \<longrightarrow> size_queue (snd (remove_front dflt q)) + 1 = size_queue q)
   \<and> size_queue (change_priority q element new_priority) = size_queue q"
proof (intro conjI impI)
  assume "0 \<le> prio"
  then show "size_queue (insert_queue q prio element) = size_queue q + 1"
    by (simp add: size_queue_def getSize_def insert_queue_def insert_heap_def upHeap_def
        length_upHeap_loop)
next
  show "size_queue (insert_all q new_elements) = size_queue q + length new_elements"
    by (simp add: size_queue_def getSize_def insert_all_def insertAll_def length_heapify
        length_push_back_all)
next
  assume "\<not> empty_queue q"
  then have "q \<noteq> []"
    by (simp add: empty_queue_def getSize_def)
  then show "size_queue (snd (remove_front dflt q)) + 1 = size_queue q"
    by (simp add: size_queue_def getSize_def remove_front_def empty_queue_def removeFront_def
        length_heapify length_swap)
next
  show "size_queue (change_priority q element new_priority) = size_queue q"
    by (simp add: size_queue_def getSize_def change_priority_def changePriority_def
        length_heapify)
qed

theorem size_changes_witness:
  "(0::int) \<le> 2
   \<and> \<not> empty_queue [\<lparr>priority = 1, value = ''b''\<rparr>, \<lparr>priority = 3, value = ''a''\<rparr>]
   \<and> size_queue (insert_queue [\<lparr>priority = 1, value = ''b''\<rparr>, \<lparr>priority = 3, value = ''a''\<rparr>] 2 ''a'') = 3
   \<and> size_queue (insert_all [\<lparr>priority = 1, value = ''b''\<rparr>, \<lparr>priority = 3, value = ''a''\<rparr>]
        [(- 7, ''x''), (4, ''y''), (- 1, ''z'')]) = 5
   \<and> size_queue (snd (remove_front [] [\<lparr>priority = 1, value = ''b''\<rparr>, \<lparr>priority = 3, value = ''a''\<rparr>])) = 1
   \<and> size_queue (change_priority [\<lparr>priority = 1, value = ''b''\<rparr>, \<lparr>priority = 3, value = ''a''\<rparr>] ''a'' 0) = 2"
  using size_changes
    [where prio = 2 and q = "[\<lparr>priority = 1, value = ''b''\<rparr>, \<lparr>priority = 3, value = ''a''\<rparr>]"
       and element = "''a''" and new_priority = 0 and dflt = "[]"
       and new_elements = "[(- 7, ''x''), (4, ''y''), (- 1, ''z'')]"]
  by (simp add: size_queue_def getSize_def empty_queue_def)

text \<open>
  C7. On an empty queue \<^verbatim>\<open>remove_front()\<close> returns \<^verbatim>\<open>E()\<close> and leaves the queue as it
  was: \<^verbatim>\<open>size()\<close> is still 0 and \<^verbatim>\<open>empty()\<close> still true. There is no error result. The
  freshly constructed queue is such a queue.
\<close>

theorem remove_front_empty:
  assumes "empty_queue q"
  shows "remove_front dflt q = (dflt, q)
       \<and> size_queue (snd (remove_front dflt q)) = 0
       \<and> empty_queue (snd (remove_front dflt q))"
  using assms
  by (simp add: remove_front_def empty_queue_def size_queue_def getSize_def)

theorem remove_front_empty_witness:
  "empty_queue (PriorityQueue_new :: string PriorityQueue)
   \<and> remove_front '''' (PriorityQueue_new :: string PriorityQueue) = ('''', PriorityQueue_new)
   \<and> size_queue (snd (remove_front '''' (PriorityQueue_new :: string PriorityQueue))) = 0
   \<and> empty_queue (snd (remove_front '''' (PriorityQueue_new :: string PriorityQueue)))"
proof -
  have e: "empty_queue (PriorityQueue_new :: string PriorityQueue)"
    by (simp add: empty_queue_def getSize_def PriorityQueue_new_def MinHeap_new_def)
  show ?thesis
    using e remove_front_empty [OF e, of "''''"] by auto
qed

text \<open>
  C8, as stated, fails. \<^verbatim>\<open>get_priority\<close> uses \<open>-1\<close> both as "nothing found yet" and as
  its result for no match, and \<^verbatim>\<open>insert_all\<close> stores negative priorities: after
  \<^verbatim>\<open>insert_all({{-1,"a"},{5,"a"}})\<close> on a new queue the first node with value \<open>a\<close> is
  at index 0 with priority \<open>-1\<close>, and \<^verbatim>\<open>get_priority("a")\<close> returns 5, the priority of
  the node at index 1.
\<close>

theorem get_priority_first_found_counterexample:
  "reachable (insert_all PriorityQueue_new [(- 1, ''a''), (5, ''a'')])
   \<and> insert_all PriorityQueue_new [(- 1, ''a''), (5, ''a'')]
       = [\<lparr>priority = - 1, value = ''a''\<rparr>, \<lparr>priority = 5, value = ''a''\<rparr>]
   \<and> findFirst (insert_all PriorityQueue_new [(- 1, ''a''), (5, ''a'')]) ''a'' = 0
   \<and> getPriority (insert_all PriorityQueue_new [(- 1, ''a''), (5, ''a'')]) 0 = - 1
   \<and> get_priority (insert_all PriorityQueue_new [(- 1, ''a''), (5, ''a'')]) ''a'' = 5"
proof -
  have q: "insert_all PriorityQueue_new [(- 1, ''a''), (5, ''a'')]
           = [\<lparr>priority = - 1, value = ''a''\<rparr>, \<lparr>priority = 5, value = ''a''\<rparr>]"
    by (simp add: insert_all_def insertAll_def PriorityQueue_new_def MinHeap_new_def
        heapify.simps heapify_pass.simps getPriority_def swap_def)
  have r: "reachable (insert_all PriorityQueue_new [(- 1, ''a''), (5, ''a'')])"
    by (intro reachable_insert_all reachable_new)
  have f: "findFirst [\<lparr>priority = - 1, value = ''a''\<rparr>, \<lparr>priority = 5, value = ''a''\<rparr>] ''a'' = 0"
    by (simp add: findFirst_def findFirst_loop.simps getSize_def getValue_def)
  have g: "get_priority [\<lparr>priority = - 1, value = ''a''\<rparr>, \<lparr>priority = 5, value = ''a''\<rparr>] ''a'' = 5"
    by (simp add: get_priority_def get_priority_loop.simps getSize_def getValue_def
        getPriority_def)
  show ?thesis
    using r f g unfolding q by (simp add: getPriority_def)
qed

text \<open>
  C8, amended. \<^verbatim>\<open>get_priority(v)\<close> returns the priority of the first node, in heap
  order, whose value is \<open>v\<close> and whose priority is not \<open>-1\<close>, and \<open>-1\<close> when there is
  no such node. So it returns \<open>-1\<close> when no node has the value \<open>v\<close>, and when no node
  with the value \<open>v\<close> has the priority \<open>-1\<close> it returns the priority of the node
  \<^verbatim>\<open>findFirst\<close> finds: the one at the smallest index whose value is \<open>v\<close>, however many
  nodes share that value. This holds for every queue, reachable or not.
\<close>

theorem get_priority_first_found:
  "get_priority q v =
     (case find (\<lambda>n. value n = v \<and> priority n \<noteq> - 1) q of
        None \<Rightarrow> - 1 | Some n \<Rightarrow> priority n)
   \<and> (v \<notin> value ` set q \<longrightarrow> get_priority q v = - 1)
   \<and> (v \<in> value ` set q \<and> (\<forall>n \<in> set q. value n = v \<longrightarrow> priority n \<noteq> - 1) \<longrightarrow>
        0 \<le> findFirst q v \<and> nat (findFirst q v) < size_queue q
      \<and> getValue q (nat (findFirst q v)) = v
      \<and> (\<forall>j < nat (findFirst q v). getValue q j \<noteq> v)
      \<and> get_priority q v = getPriority q (nat (findFirst q v)))"
proof (intro conjI impI)
  show "get_priority q v =
     (case find (\<lambda>n. value n = v \<and> priority n \<noteq> - 1) q of
        None \<Rightarrow> - 1 | Some n \<Rightarrow> priority n)"
    by (rule get_priority_find)
next
  assume "v \<notin> value ` set q"
  then have "find (\<lambda>n. value n = v \<and> priority n \<noteq> - 1) q = None"
    by (auto simp: find_None_iff)
  then show "get_priority q v = - 1"
    by (simp add: get_priority_find)
next
  assume a: "v \<in> value ` set q \<and> (\<forall>n \<in> set q. value n = v \<longrightarrow> priority n \<noteq> - 1)"
  let ?k = "nat (findFirst q v)"
  from a findFirst_found [of v q]
  have k: "0 \<le> findFirst q v" "?k < length q" "value (q ! ?k) = v"
    "\<forall>j < ?k. value (q ! j) \<noteq> v"
    by simp_all
  have "priority (q ! ?k) \<noteq> - 1"
    using a k(2,3) by (metis nth_mem)
  with k have "find (\<lambda>n. value n = v \<and> priority n \<noteq> - 1) q = Some (q ! ?k)"
    unfolding find_Some_iff by (intro exI [of _ ?k]) auto
  then have g: "get_priority q v = priority (q ! ?k)"
    by (simp add: get_priority_find)
  from k g show "0 \<le> findFirst q v" "?k < size_queue q" "getValue q ?k = v"
    "\<forall>j < ?k. getValue q j \<noteq> v" "get_priority q v = getPriority q ?k"
    by (simp_all add: size_queue_def getSize_def getValue_def getPriority_def)
qed

theorem get_priority_first_found_witness:
  "''a'' \<in> value ` set [\<lparr>priority = 1, value = ''b''\<rparr>, \<lparr>priority = 7, value = ''a''\<rparr>,
                        \<lparr>priority = 4, value = ''a''\<rparr>]
   \<and> ''z'' \<notin> value ` set [\<lparr>priority = 1, value = ''b''\<rparr>, \<lparr>priority = 7, value = ''a''\<rparr>,
                        \<lparr>priority = 4, value = ''a''\<rparr>]
   \<and> findFirst [\<lparr>priority = 1, value = ''b''\<rparr>, \<lparr>priority = 7, value = ''a''\<rparr>,
                \<lparr>priority = 4, value = ''a''\<rparr>] ''a'' = 1
   \<and> get_priority [\<lparr>priority = 1, value = ''b''\<rparr>, \<lparr>priority = 7, value = ''a''\<rparr>,
                   \<lparr>priority = 4, value = ''a''\<rparr>] ''a'' = 7
   \<and> get_priority [\<lparr>priority = 1, value = ''b''\<rparr>, \<lparr>priority = 7, value = ''a''\<rparr>,
                   \<lparr>priority = 4, value = ''a''\<rparr>] ''z'' = - 1"
proof -
  let ?q = "[\<lparr>priority = 1, value = ''b''\<rparr>, \<lparr>priority = 7, value = ''a''\<rparr>,
             \<lparr>priority = 4, value = ''a''\<rparr>]"
  have f: "findFirst ?q ''a'' = 1"
    by (simp add: findFirst_def findFirst_loop.simps getSize_def getValue_def)
  have a: "''a'' \<in> value ` set ?q \<and> (\<forall>n \<in> set ?q. value n = ''a'' \<longrightarrow> priority n \<noteq> - 1)"
    by simp
  have z: "''z'' \<notin> value ` set ?q"
    by simp
  from get_priority_first_found [of ?q "''a''"] a
  have "get_priority ?q ''a'' = getPriority ?q (nat (findFirst ?q ''a''))"
    by blast
  then have 1: "get_priority ?q ''a'' = 7"
    unfolding f by (simp add: getPriority_def)
  from get_priority_first_found [of ?q "''z''"] z
  have 2: "get_priority ?q ''z'' = - 1"
    by blast
  from a z f 1 2 show ?thesis by blast
qed

text \<open>
  C9. \<^verbatim>\<open>get_all_elements()\<close> and \<^verbatim>\<open>get_all_priorities()\<close> both have \<^verbatim>\<open>size()\<close> entries,
  and entry \<open>i\<close> of each is the value, respectively the priority, of the node stored at
  index \<open>i\<close> of the heap: the two vectors are in the same order, and
  \<^verbatim>\<open>get_all_priorities()[i]\<close> is the priority stored with \<^verbatim>\<open>get_all_elements()[i]\<close>. This
  holds for every queue, reachable or not.
\<close>

theorem parallel_sequences:
  "length (get_all_elements q) = size_queue q
   \<and> length (get_all_priorities q) = size_queue q
   \<and> (\<forall>i < size_queue q.
         get_all_elements q ! i = getValue q i
       \<and> get_all_priorities q ! i = getPriority q i
       \<and> q ! i = \<lparr>priority = get_all_priorities q ! i, value = get_all_elements q ! i\<rparr>)"
  by (simp add: get_all_elements_map get_all_priorities_map size_queue_def getSize_def
      getValue_def getPriority_def)

theorem parallel_sequences_witness:
  "length (get_all_elements [\<lparr>priority = 1, value = ''b''\<rparr>, \<lparr>priority = 3, value = ''a''\<rparr>]) = 2
   \<and> length (get_all_priorities [\<lparr>priority = 1, value = ''b''\<rparr>, \<lparr>priority = 3, value = ''a''\<rparr>]) = 2
   \<and> get_all_elements [\<lparr>priority = 1, value = ''b''\<rparr>, \<lparr>priority = 3, value = ''a''\<rparr>] ! 1 = ''a''
   \<and> get_all_priorities [\<lparr>priority = 1, value = ''b''\<rparr>, \<lparr>priority = 3, value = ''a''\<rparr>] ! 1 = 3"
  using parallel_sequences [of "[\<lparr>priority = 1, value = ''b''\<rparr>, \<lparr>priority = 3, value = ''a''\<rparr>]"]
  by (simp add: size_queue_def getSize_def getValue_def getPriority_def)

text \<open>
  C10, as stated, fails in its part on \<^verbatim>\<open>get_priority\<close>: the negative priority that
  \<^verbatim>\<open>change_priority\<close> writes is not always what \<^verbatim>\<open>get_priority(v)\<close> returns afterwards,
  and \<open>p = -1\<close> does not always make it return the sentinel. After \<^verbatim>\<open>insert(1,"a")\<close>,
  \<^verbatim>\<open>insert(2,"a")\<close> and \<^verbatim>\<open>change_priority("a", -1)\<close> on a new queue the vector is
  \<open>[(-1,a), (2,a)]\<close> and \<^verbatim>\<open>get_priority("a")\<close> returns 2. After
  \<^verbatim>\<open>insert_all({{0,"b"},{5,"a"},{-9,"a"}})\<close>, \<^verbatim>\<open>insert(7,"c")\<close> and
  \<^verbatim>\<open>change_priority("a", -5)\<close> the vector is \<open>[(-9,a), (-5,a), (0,b), (7,c)]\<close> and
  \<^verbatim>\<open>get_priority("a")\<close> returns \<open>-9\<close>.
\<close>

theorem change_priority_negative_counterexample:
  "reachable (insert_queue (insert_queue PriorityQueue_new 1 ''a'') 2 ''a'')
   \<and> contains (insert_queue (insert_queue PriorityQueue_new 1 ''a'') 2 ''a'') ''a''
   \<and> change_priority (insert_queue (insert_queue PriorityQueue_new 1 ''a'') 2 ''a'') ''a'' (- 1)
       = [\<lparr>priority = - 1, value = ''a''\<rparr>, \<lparr>priority = 2, value = ''a''\<rparr>]
   \<and> get_priority
        (change_priority (insert_queue (insert_queue PriorityQueue_new 1 ''a'') 2 ''a'') ''a'' (- 1))
        ''a'' = 2
   \<and> reachable (insert_queue
        (insert_all PriorityQueue_new [(0, ''b''), (5, ''a''), (- 9, ''a'')]) 7 ''c'')
   \<and> contains (insert_queue
        (insert_all PriorityQueue_new [(0, ''b''), (5, ''a''), (- 9, ''a'')]) 7 ''c'') ''a''
   \<and> change_priority (insert_queue
        (insert_all PriorityQueue_new [(0, ''b''), (5, ''a''), (- 9, ''a'')]) 7 ''c'') ''a'' (- 5)
       = [\<lparr>priority = - 9, value = ''a''\<rparr>, \<lparr>priority = - 5, value = ''a''\<rparr>,
          \<lparr>priority = 0, value = ''b''\<rparr>, \<lparr>priority = 7, value = ''c''\<rparr>]
   \<and> get_priority
        (change_priority (insert_queue
           (insert_all PriorityQueue_new [(0, ''b''), (5, ''a''), (- 9, ''a'')]) 7 ''c'') ''a'' (- 5))
        ''a'' = - 9"
proof -
  let ?q = "insert_queue (insert_queue PriorityQueue_new 1 ''a'') 2 ''a''"
  let ?r = "insert_queue
        (insert_all PriorityQueue_new [(0, ''b''), (5, ''a''), (- 9, ''a'')]) 7 ''c''"
  have q: "?q = [\<lparr>priority = 1, value = ''a''\<rparr>, \<lparr>priority = 2, value = ''a''\<rparr>]"
    by (simp add: insert_queue_def insert_heap_def PriorityQueue_new_def MinHeap_new_def
        upHeap_def upHeap_loop.simps getParent_def getPriority_def swap_def)
  have rq: "reachable ?q"
    by (intro reachable_insert reachable_new)
  have cq: "contains [\<lparr>priority = 1, value = ''a''\<rparr>, \<lparr>priority = 2, value = ''a''\<rparr>] ''a''"
    by (simp add: contains_def contains_loop.simps getSize_def getValue_def)
  have fq: "findFirst [\<lparr>priority = 1, value = ''a''\<rparr>, \<lparr>priority = 2, value = ''a''\<rparr>] ''a'' = 0"
    by (simp add: findFirst_def findFirst_loop.simps getSize_def getValue_def)
  have q': "change_priority [\<lparr>priority = 1, value = ''a''\<rparr>, \<lparr>priority = 2, value = ''a''\<rparr>]
              ''a'' (- 1)
            = [\<lparr>priority = - 1, value = ''a''\<rparr>, \<lparr>priority = 2, value = ''a''\<rparr>]"
    by (simp add: change_priority_def changePriority_def fq heapify.simps heapify_pass.simps
        getPriority_def swap_def)
  have gq: "get_priority [\<lparr>priority = - 1, value = ''a''\<rparr>, \<lparr>priority = 2, value = ''a''\<rparr>]
              ''a'' = 2"
    by (simp add: get_priority_def get_priority_loop.simps getSize_def getValue_def
        getPriority_def)
  have bulk: "insert_all PriorityQueue_new [(0, ''b''), (5, ''a''), (- 9, ''a'')]
      = [\<lparr>priority = 0, value = ''b''\<rparr>, \<lparr>priority = 5, value = ''a''\<rparr>,
         \<lparr>priority = - 9, value = ''a''\<rparr>]"
    by (simp add: insert_all_def insertAll_def PriorityQueue_new_def MinHeap_new_def
        heapify.simps heapify_pass.simps getPriority_def swap_def)
  have r: "?r = [\<lparr>priority = 0, value = ''b''\<rparr>, \<lparr>priority = 5, value = ''a''\<rparr>,
                 \<lparr>priority = - 9, value = ''a''\<rparr>, \<lparr>priority = 7, value = ''c''\<rparr>]"
    unfolding bulk
    by (simp add: insert_queue_def insert_heap_def upHeap_def upHeap_loop.simps getParent_def
        getPriority_def swap_def)
  have rr: "reachable ?r"
    by (intro reachable_insert reachable_insert_all reachable_new)
  have cr: "contains [\<lparr>priority = 0, value = ''b''\<rparr>, \<lparr>priority = 5, value = ''a''\<rparr>,
                 \<lparr>priority = - 9, value = ''a''\<rparr>, \<lparr>priority = 7, value = ''c''\<rparr>] ''a''"
    by (simp add: contains_def contains_loop.simps getSize_def getValue_def)
  have fr: "findFirst [\<lparr>priority = 0, value = ''b''\<rparr>, \<lparr>priority = 5, value = ''a''\<rparr>,
                 \<lparr>priority = - 9, value = ''a''\<rparr>, \<lparr>priority = 7, value = ''c''\<rparr>] ''a'' = 1"
    by (simp add: findFirst_def findFirst_loop.simps getSize_def getValue_def)
  have r': "change_priority [\<lparr>priority = 0, value = ''b''\<rparr>, \<lparr>priority = 5, value = ''a''\<rparr>,
                 \<lparr>priority = - 9, value = ''a''\<rparr>, \<lparr>priority = 7, value = ''c''\<rparr>] ''a'' (- 5)
            = [\<lparr>priority = - 9, value = ''a''\<rparr>, \<lparr>priority = - 5, value = ''a''\<rparr>,
               \<lparr>priority = 0, value = ''b''\<rparr>, \<lparr>priority = 7, value = ''c''\<rparr>]"
    by (simp add: change_priority_def changePriority_def fr heapify.simps heapify_pass.simps
        getPriority_def swap_def)
  have gr: "get_priority [\<lparr>priority = - 9, value = ''a''\<rparr>, \<lparr>priority = - 5, value = ''a''\<rparr>,
               \<lparr>priority = 0, value = ''b''\<rparr>, \<lparr>priority = 7, value = ''c''\<rparr>] ''a'' = - 9"
    by (simp add: get_priority_def get_priority_loop.simps getSize_def getValue_def
        getPriority_def)
  from rq rr cq cr gq gr show ?thesis
    unfolding q r q' r' by simp
qed

text \<open>
  C10, amended. \<^verbatim>\<open>change_priority\<close> does not look at the sign of the new priority. On a queue
  that contains the value \<open>v\<close>, \<^verbatim>\<open>change_priority(v, p)\<close> with \<open>p < 0\<close> writes \<open>p\<close> into
  the first node with the value \<open>v\<close> and runs \<^verbatim>\<open>heapify\<close>: the stored nodes are those of
  before with that one node replaced by \<open>(p, v)\<close>. So \<open>p\<close> is one of
  \<^verbatim>\<open>get_all_priorities()\<close> and not every stored priority is non-negative.
  \<^verbatim>\<open>get_priority(v)\<close> returns \<open>p\<close> when \<open>v\<close> is stored in one node only, and also when
  every priority stored before the call is non-negative and \<open>p\<close> is not \<open>-1\<close>. For
  \<open>p = -1\<close> and \<open>v\<close> stored in one node, \<^verbatim>\<open>get_priority(v)\<close> returns \<open>-1\<close>, the value it
  also returns for a value that is not stored, although \<^verbatim>\<open>contains(v)\<close> is true. This
  holds for every queue, reachable or not.
\<close>

theorem change_priority_negative:
  assumes c: "contains q v" and neg: "p < 0"
  shows "0 \<le> findFirst q v \<and> nat (findFirst q v) < size_queue q
       \<and> getValue q (nat (findFirst q v)) = v
       \<and> (\<forall>j < nat (findFirst q v). getValue q j \<noteq> v)
       \<and> change_priority q v p
           = heapify (q[nat (findFirst q v) := \<lparr>priority = p, value = v\<rparr>])
       \<and> mset (change_priority q v p)
           = add_mset \<lparr>priority = p, value = v\<rparr> (mset q - {#q ! nat (findFirst q v)#})
       \<and> p \<in> set (get_all_priorities (change_priority q v p))
       \<and> \<not> list_all (\<lambda>n. 0 \<le> priority n) (change_priority q v p)
       \<and> contains (change_priority q v p) v
       \<and> (length (filter (\<lambda>n. value n = v) q) = 1 \<longrightarrow>
            get_priority (change_priority q v p) v = p)
       \<and> (list_all (\<lambda>n. 0 \<le> priority n) q \<and> p \<noteq> - 1 \<longrightarrow>
            get_priority (change_priority q v p) v = p)"
proof -
  let ?k = "nat (findFirst q v)"
  let ?new = "\<lparr>priority = p, value = v\<rparr>"
  let ?q' = "change_priority q v p"
  from c have mem: "v \<in> value ` set q"
    by (simp add: contains_iff)
  from findFirst_found [OF mem]
  have k: "0 \<le> findFirst q v" "?k < length q" "value (q ! ?k) = v"
    "\<forall>j < ?k. value (q ! j) \<noteq> v"
    by simp_all
  from mem have found: "findFirst q v \<noteq> - 1"
    by (simp add: findFirst_none)
  have new: "(q ! ?k)\<lparr>priority := p\<rparr> = ?new"
    using k(3) by simp
  have cp: "?q' = heapify (q[?k := ?new])"
    using found by (simp add: change_priority_def changePriority_def new)
  have ms: "mset ?q' = add_mset ?new (mset q - {#q ! ?k#})"
    using k(2) by (simp add: cp mset_heapify mset_update)
  then have in_q': "?new \<in> set ?q'"
    by (metis set_mset_mset union_single_eq_member)
  then have p_in: "p \<in> set (get_all_priorities ?q')"
    by (force simp: get_all_priorities_map)
  have not_all: "\<not> list_all (\<lambda>n. 0 \<le> priority n) ?q'"
    using in_q' neg by (force simp: list_all_iff)
  have cont: "contains ?q' v"
    using in_q' by (force simp: contains_iff)
  have once: "get_priority ?q' v = p" if one: "length (filter (\<lambda>n. value n = v) q) = 1"
  proof -
    let ?P = "\<lambda>n. value n = v"
    from one obtain x where x: "filter ?P q = [x]"
      by (cases "filter ?P q") simp_all
    have "q ! ?k \<in> set (filter ?P q)"
      using k(2,3) by simp
    with x have fq: "filter ?P q = [q ! ?k]" by simp
    have "mset (filter ?P ?q') = filter_mset ?P (mset ?q')"
      by simp
    also have "\<dots> = add_mset ?new (filter_mset ?P (mset q) - {#q ! ?k#})"
      using k(3) by (simp add: ms)
    also have "filter_mset ?P (mset q) = mset (filter ?P q)"
      by simp
    finally have "mset (filter ?P ?q') = {#?new#}"
      by (simp add: fq)
    then have f': "filter ?P ?q' = [?new]"
      by (metis mset_single_iff_right)
    have "filter (\<lambda>n. value n = v \<and> priority n \<noteq> - 1) ?q'
          = filter (\<lambda>n. priority n \<noteq> - 1) (filter ?P ?q')"
      by (simp add: conj_commute)
    then show ?thesis
      by (simp add: get_priority_find find_as_filter f')
  qed
  have clean: "get_priority ?q' v = p"
    if nonneg: "list_all (\<lambda>n. 0 \<le> priority n) q" and p: "p \<noteq> - 1"
  proof -
    from nonneg neg have "\<forall>n \<in> set q. p < priority n"
      by (force simp: list_all_iff)
    from heapify_lowest_first [OF k(2,3,4) this]
    obtain xs ys where split: "?q' = xs @ ?new # ys" and before: "\<forall>n \<in> set xs. value n \<noteq> v"
      unfolding cp by blast
    have "find (\<lambda>n. value n = v \<and> priority n \<noteq> - 1) (xs @ ?new # ys) = Some ?new"
      using before p by (intro find_first_match) simp_all
    then show ?thesis
      by (simp add: get_priority_find split)
  qed
  from k cp ms p_in not_all cont once clean show ?thesis
    by (simp add: size_queue_def getSize_def getValue_def)
qed

theorem change_priority_negative_witness:
  "contains [\<lparr>priority = 1, value = ''b''\<rparr>, \<lparr>priority = 3, value = ''a''\<rparr>] ''a''
   \<and> (- 1 :: int) < 0
   \<and> length (filter (\<lambda>n. value n = ''a'')
        [\<lparr>priority = 1, value = ''b''\<rparr>, \<lparr>priority = 3, value = ''a''\<rparr>]) = 1
   \<and> change_priority [\<lparr>priority = 1, value = ''b''\<rparr>, \<lparr>priority = 3, value = ''a''\<rparr>] ''a'' (- 1)
       = [\<lparr>priority = - 1, value = ''a''\<rparr>, \<lparr>priority = 1, value = ''b''\<rparr>]
   \<and> get_all_priorities
        (change_priority [\<lparr>priority = 1, value = ''b''\<rparr>, \<lparr>priority = 3, value = ''a''\<rparr>] ''a'' (- 1))
       = [- 1, 1]
   \<and> contains
        (change_priority [\<lparr>priority = 1, value = ''b''\<rparr>, \<lparr>priority = 3, value = ''a''\<rparr>] ''a'' (- 1))
        ''a''
   \<and> get_priority
        (change_priority [\<lparr>priority = 1, value = ''b''\<rparr>, \<lparr>priority = 3, value = ''a''\<rparr>] ''a'' (- 1))
        ''a'' = - 1
   \<and> get_priority
        (change_priority [\<lparr>priority = 1, value = ''b''\<rparr>, \<lparr>priority = 3, value = ''a''\<rparr>] ''a'' (- 1))
        ''z'' = - 1
   \<and> list_all (\<lambda>n. 0 \<le> priority n)
        [\<lparr>priority = 1, value = ''b''\<rparr>, \<lparr>priority = 3, value = ''a''\<rparr>,
         \<lparr>priority = 4, value = ''a''\<rparr>]
   \<and> change_priority [\<lparr>priority = 1, value = ''b''\<rparr>, \<lparr>priority = 3, value = ''a''\<rparr>,
                        \<lparr>priority = 4, value = ''a''\<rparr>] ''a'' (- 5)
       = [\<lparr>priority = - 5, value = ''a''\<rparr>, \<lparr>priority = 1, value = ''b''\<rparr>,
          \<lparr>priority = 4, value = ''a''\<rparr>]
   \<and> get_priority
        (change_priority [\<lparr>priority = 1, value = ''b''\<rparr>, \<lparr>priority = 3, value = ''a''\<rparr>,
                          \<lparr>priority = 4, value = ''a''\<rparr>] ''a'' (- 5))
        ''a'' = - 5"
proof -
  let ?q = "[\<lparr>priority = 1, value = ''b''\<rparr>, \<lparr>priority = 3, value = ''a''\<rparr>]"
  have c: "contains ?q ''a''"
    by (simp add: contains_def contains_loop.simps getSize_def getValue_def)
  have neg: "(- 1 :: int) < 0"
    by simp
  have one: "length (filter (\<lambda>n. value n = ''a'') ?q) = 1"
    by simp
  have f: "findFirst ?q ''a'' = 1"
    by (simp add: findFirst_def findFirst_loop.simps getSize_def getValue_def)
  note t = change_priority_negative [OF c neg]
  from t have "change_priority ?q ''a'' (- 1)
               = heapify (?q[nat (findFirst ?q ''a'') := \<lparr>priority = - 1, value = ''a''\<rparr>])"
    by blast
  then have q': "change_priority ?q ''a'' (- 1)
                 = [\<lparr>priority = - 1, value = ''a''\<rparr>, \<lparr>priority = 1, value = ''b''\<rparr>]"
    unfolding f
    by (simp add: heapify.simps heapify_pass.simps getPriority_def swap_def)
  from t one have g: "get_priority (change_priority ?q ''a'' (- 1)) ''a'' = - 1"
    by blast
  from t have c': "contains (change_priority ?q ''a'' (- 1)) ''a''"
    by blast
  have z: "get_priority [\<lparr>priority = - 1, value = ''a''\<rparr>, \<lparr>priority = 1, value = ''b''\<rparr>] ''z''
           = - 1"
    by (simp add: get_priority_def get_priority_loop.simps getSize_def getValue_def)
  have ps: "get_all_priorities [\<lparr>priority = - 1, value = ''a''\<rparr>, \<lparr>priority = 1, value = ''b''\<rparr>]
            = [- 1, 1]"
    by (simp add: get_all_priorities_map)
  let ?r = "[\<lparr>priority = 1, value = ''b''\<rparr>, \<lparr>priority = 3, value = ''a''\<rparr>,
             \<lparr>priority = 4, value = ''a''\<rparr>]"
  have cr: "contains ?r ''a''"
    by (simp add: contains_def contains_loop.simps getSize_def getValue_def)
  have fr: "findFirst ?r ''a'' = 1"
    by (simp add: findFirst_def findFirst_loop.simps getSize_def getValue_def)
  have nonneg: "list_all (\<lambda>n. 0 \<le> priority n) ?r \<and> (- 5 :: int) \<noteq> - 1"
    by simp
  have neg5: "(- 5 :: int) < 0"
    by simp
  note u = change_priority_negative [OF cr neg5]
  from u have "change_priority ?r ''a'' (- 5)
               = heapify (?r[nat (findFirst ?r ''a'') := \<lparr>priority = - 5, value = ''a''\<rparr>])"
    by blast
  then have r': "change_priority ?r ''a'' (- 5)
                 = [\<lparr>priority = - 5, value = ''a''\<rparr>, \<lparr>priority = 1, value = ''b''\<rparr>,
                    \<lparr>priority = 4, value = ''a''\<rparr>]"
    unfolding fr
    by (simp add: heapify.simps heapify_pass.simps getPriority_def swap_def)
  from u nonneg have gr: "get_priority (change_priority ?r ''a'' (- 5)) ''a'' = - 5"
    by blast
  from c neg one g c' z ps nonneg r' gr show ?thesis
    unfolding q' by simp
qed

end
